theory Spec2Isabelle
  imports Complex_Main "HOL-Library.Word"
begin

section \<open>Data model (src/types.ts)\<close>

text \<open>
  \<^verbatim>\<open>EdgeDetectionMethod\<close> and \<^verbatim>\<open>ProcessingMode\<close> are string-literal unions; each
  literal is a constructor. \<^verbatim>\<open>EdgeDetectionConfig\<close> is the driver's configuration.
  \<^verbatim>\<open>threshold\<close> and \<^verbatim>\<open>blurAmount\<close> are numbers that the driver only ever sets
  with \<^verbatim>\<open>parseInt\<close>, hence integers. The field \<^verbatim>\<open>method\<close> is \<open>method_name\<close> here.
\<close>

datatype EdgeDetectionMethod = Sobel | Canny | Roberts | Prewitt | Laplacian | Grayscale

datatype ProcessingMode = OpenCV | TypeScript

record EdgeDetectionConfig =
  threshold :: int
  blurAmount :: int
  method_name :: EdgeDetectionMethod
  mode :: ProcessingMode

record ProcessingState =
  isProcessing :: bool
  animationId :: "nat option"

text \<open>
  The browser's \<^verbatim>\<open>ImageData\<close>: width, height and a \<^verbatim>\<open>Uint8ClampedArray\<close> of RGBA
  samples.
\<close>

record ImageData =
  width :: nat
  height :: nat
  data :: "8 word list"

definition valid_image :: "ImageData \<Rightarrow> bool" where
  "valid_image img \<longleftrightarrow>
     0 < width img \<and> 0 < height img \<and> length (data img) = 4 * width img * height img"

text \<open>
  Errors as values. \<open>OpenCVNotInitialized\<close> is \<^verbatim>\<open>new Error('OpenCV not initialized')\<close>,
  the spec's BackendNotReady. \<open>DOMException\<close> is what the \<^verbatim>\<open>ImageData\<close> constructor
  throws on a buffer whose length does not fit the dimensions. \<open>CvException\<close> is the
  exception a library call throws when it rejects its arguments. The other four are the
  spec's taxonomy; the driver and the processor never raise them, the Reference
  implementation (a parameter below) may.
\<close>

datatype error =
    OpenCVNotInitialized
  | InvalidDimensions
  | InvalidKernel
  | InvalidThresholds
  | UnsupportedOperator
  | DOMException
  | CvException

definition new_ImageData :: "8 word list \<Rightarrow> nat \<Rightarrow> nat \<Rightarrow> error + ImageData" where
  "new_ImageData d sw sh =
     (if sw = 0 \<or> sh = 0 \<or> length d \<noteq> 4 * sw * sh then Inl DOMException
      else Inr \<lparr>width = sw, height = sh, data = d\<rparr>)"

section \<open>The OpenCV library object\<close>

text \<open>
  \<^verbatim>\<open>cv.Mat\<close>: rows, columns, element depth, channel count and the samples in row-major,
  channel-interleaved order. The processor only uses 8-bit unsigned and 16-bit signed
  matrices.
\<close>

datatype depth = CV_8U | CV_16S

record Mat =
  rows :: nat
  cols :: nat
  depth :: depth
  channels :: nat
  elems :: "int list"

datatype ColorConversionCode = COLOR_RGBA2GRAY | COLOR_GRAY2RGBA

text \<open>
  opencv.js is an external library. Its filters are parameters of the model: the luma
  conversion, the Gaussian blur, the Sobel and Laplacian derivatives and the Canny
  detector. The three filters that take an aperture from the caller check it and throw
  on one they do not accept (an even aperture, for one), so they return a matrix or an
  error; the processor hands them \<^verbatim>\<open>ksize\<close> unchecked. The luma conversion and Canny get
  no aperture and are taken to return a matrix.
\<close>

record opencv =
  cv_RGBA2GRAY :: "Mat \<Rightarrow> Mat"
  cv_GaussianBlur :: "Mat \<Rightarrow> int \<times> int \<Rightarrow> int \<Rightarrow> error + Mat"
  cv_Sobel :: "Mat \<Rightarrow> depth \<Rightarrow> nat \<Rightarrow> nat \<Rightarrow> int \<Rightarrow> error + Mat"
  cv_Laplacian :: "Mat \<Rightarrow> depth \<Rightarrow> int \<Rightarrow> error + Mat"
  cv_Canny :: "Mat \<Rightarrow> int \<Rightarrow> int \<Rightarrow> Mat"

text \<open>
  The element-wise library primitives the processor calls are written out after the
  library's reference documentation.
  \<^item> \<^verbatim>\<open>cv.matFromImageData\<close>: a \<^verbatim>\<open>CV_8UC4\<close> matrix of the image's size holding its
    samples.
  \<^item> \<^verbatim>\<open>saturate_cast<uchar>\<close>: clamp to \<open>0..255\<close>.
  \<^item> \<^verbatim>\<open>cvRound\<close>: nearest integer, ties to even.
  \<^item> \<^verbatim>\<open>cv.convertScaleAbs\<close> with its default scale 1 and shift 0:
    \<open>dst(I) = saturate_cast<uchar>(|src(I)|)\<close>, an 8-bit matrix.
  \<^item> \<^verbatim>\<open>cv.addWeighted\<close>:
    \<open>dst(I) = saturate(src1(I) * alpha + src2(I) * beta + gamma)\<close>.
  \<^item> \<^verbatim>\<open>cv.cvtColor\<close> with \<^verbatim>\<open>COLOR_GRAY2RGBA\<close>: the gray sample in R, G and B, alpha 255.
  \<^item> \<^verbatim>\<open>Mat.data\<close>: the byte view of the matrix; a 16-bit sample is two bytes.
\<close>

definition matFromImageData :: "ImageData \<Rightarrow> Mat" where
  "matFromImageData img =
     \<lparr>rows = height img, cols = width img, depth = CV_8U, channels = 4,
      elems = map uint (data img)\<rparr>"

definition saturate_u8 :: "int \<Rightarrow> int" where
  "saturate_u8 x = (if x < 0 then 0 else if 255 < x then 255 else x)"

definition cvRound :: "real \<Rightarrow> int" where
  "cvRound x =
     (let f = \<lfloor>x\<rfloor>; d = x - of_int f
      in if d < 1 / 2 then f else if 1 / 2 < d then f + 1
         else if even f then f else f + 1)"

definition convertScaleAbs :: "Mat \<Rightarrow> Mat" where
  "convertScaleAbs m = m\<lparr>depth := CV_8U, elems := map (\<lambda>x. saturate_u8 \<bar>x\<bar>) (elems m)\<rparr>"

definition addWeighted :: "Mat \<Rightarrow> real \<Rightarrow> Mat \<Rightarrow> real \<Rightarrow> real \<Rightarrow> Mat" where
  "addWeighted a alpha b beta gamma =
     a\<lparr>elems := map (\<lambda>(x, y). saturate_u8 (cvRound (of_int x * alpha + of_int y * beta + gamma)))
                    (zip (elems a) (elems b))\<rparr>"

definition gray2rgba :: "Mat \<Rightarrow> Mat" where
  "gray2rgba m = m\<lparr>channels := 4, elems := concat (map (\<lambda>v. [v, v, v, 255]) (elems m))\<rparr>"

definition cvtColor :: "opencv \<Rightarrow> Mat \<Rightarrow> ColorConversionCode \<Rightarrow> Mat" where
  "cvtColor cv m code =
     (case code of COLOR_RGBA2GRAY \<Rightarrow> cv_RGBA2GRAY cv m | COLOR_GRAY2RGBA \<Rightarrow> gray2rgba m)"

definition mat_data :: "Mat \<Rightarrow> 8 word list" where
  "mat_data m =
     (case depth m of
        CV_8U \<Rightarrow> map word_of_int (elems m)
      | CV_16S \<Rightarrow> concat (map (\<lambda>x. [word_of_int x, word_of_int (x div 256)]) (elems m)))"

section \<open>OpenCVProcessor (the Accelerated backend)\<close>

text \<open>
  The class keeps the readiness flag \<^verbatim>\<open>isReady\<close>; the library object \<^verbatim>\<open>cv\<close> is passed
  to each operation. Every operation starts with the same guard and ends by building an
  \<^verbatim>\<open>ImageData\<close> from the result matrix's bytes, columns and rows. No operation catches:
  an exception of a library call leaves the operation as it is.
\<close>

record OpenCVProcessor =
  isReady :: bool

definition ready :: "OpenCVProcessor \<Rightarrow> bool" where
  "ready p = isReady p"

definition toImageData :: "Mat \<Rightarrow> error + ImageData" where
  "toImageData result = new_ImageData (mat_data result) (cols result) (rows result)"

definition canny :: "opencv \<Rightarrow> OpenCVProcessor \<Rightarrow> ImageData \<Rightarrow> int \<Rightarrow> int \<Rightarrow> error + ImageData" where
  "canny cv p imageData lowThreshold highThreshold =
     (if \<not> isReady p then Inl OpenCVNotInitialized
      else
        let src = matFromImageData imageData;
            gray = cvtColor cv src COLOR_RGBA2GRAY;
            edges = cv_Canny cv gray lowThreshold highThreshold;
            result = cvtColor cv edges COLOR_GRAY2RGBA
        in toImageData result)"

definition grayscale :: "opencv \<Rightarrow> OpenCVProcessor \<Rightarrow> ImageData \<Rightarrow> error + ImageData" where
  "grayscale cv p imageData =
     (if \<not> isReady p then Inl OpenCVNotInitialized
      else
        let src = matFromImageData imageData;
            gray = cvtColor cv src COLOR_RGBA2GRAY;
            result = cvtColor cv gray COLOR_GRAY2RGBA
        in toImageData result)"

definition sobel :: "opencv \<Rightarrow> OpenCVProcessor \<Rightarrow> ImageData \<Rightarrow> int \<Rightarrow> error + ImageData" where
  "sobel cv p imageData ksize =
     (if \<not> isReady p then Inl OpenCVNotInitialized
      else
        let src = matFromImageData imageData;
            gray = cvtColor cv src COLOR_RGBA2GRAY
        in case cv_GaussianBlur cv gray (3, 3) 0 of
             Inl e \<Rightarrow> Inl e
           | Inr blurred \<Rightarrow>
               (case cv_Sobel cv blurred CV_16S 1 0 ksize of
                  Inl e \<Rightarrow> Inl e
                | Inr gradX \<Rightarrow>
                    (case cv_Sobel cv blurred CV_16S 0 1 ksize of
                       Inl e \<Rightarrow> Inl e
                     | Inr gradY \<Rightarrow>
                         let absGradX = convertScaleAbs gradX;
                             absGradY = convertScaleAbs gradY;
                             edges = addWeighted absGradX (1 / 2) absGradY (1 / 2) 0;
                             result = cvtColor cv edges COLOR_GRAY2RGBA
                         in toImageData result)))"

text \<open>
  The matrices \<^verbatim>\<open>gradX\<close> and \<^verbatim>\<open>gradY\<close> of \<^verbatim>\<open>sobel\<close>, named so that theorems can
  refer to the gradient at a pixel; \<open>axis\<close> is \<open>(1, 0)\<close> for \<^verbatim>\<open>gradX\<close> and \<open>(0, 1)\<close> for
  \<^verbatim>\<open>gradY\<close>.
\<close>

definition sobel_grad :: "opencv \<Rightarrow> ImageData \<Rightarrow> nat \<times> nat \<Rightarrow> int \<Rightarrow> error + Mat" where
  "sobel_grad cv imageData axis ksize =
     (case cv_GaussianBlur cv (cvtColor cv (matFromImageData imageData) COLOR_RGBA2GRAY) (3, 3) 0 of
        Inl e \<Rightarrow> Inl e
      | Inr blurred \<Rightarrow> cv_Sobel cv blurred CV_16S (fst axis) (snd axis) ksize)"

definition gaussianBlur :: "opencv \<Rightarrow> OpenCVProcessor \<Rightarrow> ImageData \<Rightarrow> int \<Rightarrow> int \<Rightarrow> error + ImageData" where
  "gaussianBlur cv p imageData ksize sigma =
     (if \<not> isReady p then Inl OpenCVNotInitialized
      else
        let src = matFromImageData imageData
        in case cv_GaussianBlur cv src (ksize, ksize) sigma of
             Inl e \<Rightarrow> Inl e
           | Inr blurred \<Rightarrow> toImageData blurred)"

definition laplacian :: "opencv \<Rightarrow> OpenCVProcessor \<Rightarrow> ImageData \<Rightarrow> int \<Rightarrow> error + ImageData" where
  "laplacian cv p imageData ksize =
     (if \<not> isReady p then Inl OpenCVNotInitialized
      else
        let src = matFromImageData imageData;
            gray = cvtColor cv src COLOR_RGBA2GRAY
        in case cv_GaussianBlur cv gray (3, 3) 0 of
             Inl e \<Rightarrow> Inl e
           | Inr blurred \<Rightarrow>
               (case cv_Laplacian cv blurred CV_16S ksize of
                  Inl e \<Rightarrow> Inl e
                | Inr lap \<Rightarrow>
                    let absLaplacian = convertScaleAbs lap;
                        result = cvtColor cv absLaplacian COLOR_GRAY2RGBA
                    in toImageData result))"

section \<open>EdgeDetector (the Reference backend)\<close>

text \<open>
  The class \<^verbatim>\<open>EdgeDetector\<close> (edge-detection.ts) is missing from the sources. The driver
  only calls its static methods, so the routing and error theorems take them as
  parameters: each maps an image and a number (blur radius or threshold) to an image or an
  error.
\<close>

record EdgeDetector =
  ed_gaussianBlur :: "ImageData \<Rightarrow> int \<Rightarrow> error + ImageData"
  ed_sobel :: "ImageData \<Rightarrow> int \<Rightarrow> error + ImageData"
  ed_canny :: "ImageData \<Rightarrow> int \<Rightarrow> error + ImageData"
  ed_roberts :: "ImageData \<Rightarrow> int \<Rightarrow> error + ImageData"
  ed_prewitt :: "ImageData \<Rightarrow> int \<Rightarrow> error + ImageData"
  ed_laplacian :: "ImageData \<Rightarrow> int \<Rightarrow> error + ImageData"

section \<open>The driver: processFrame (src/app.ts)\<close>

text \<open>
  Every backend invocation the driver can make, with its scalar arguments. \<open>Cv\<close> calls
  go to \<^verbatim>\<open>this.opencvProcessor\<close>, \<open>Ts\<close> calls to the static \<^verbatim>\<open>EdgeDetector\<close>.
\<close>

datatype call =
    CvGaussianBlur int
  | CvSobel
  | CvCanny int int
  | CvLaplacian
  | CvGrayscale
  | TsGaussianBlur int
  | TsSobel int
  | TsCanny int
  | TsRoberts int
  | TsPrewitt int
  | TsLaplacian int

fun is_accelerated :: "call \<Rightarrow> bool" where
  "is_accelerated (CvGaussianBlur k) = True"
| "is_accelerated CvSobel = True"
| "is_accelerated (CvCanny lo hi) = True"
| "is_accelerated CvLaplacian = True"
| "is_accelerated CvGrayscale = True"
| "is_accelerated c = False"


text \<open>
  What each call runs. \<^verbatim>\<open>sobel\<close> and \<^verbatim>\<open>laplacian\<close> are called without \<^verbatim>\<open>ksize\<close>
  (default 3), \<^verbatim>\<open>gaussianBlur\<close> without \<^verbatim>\<open>sigma\<close> (default 0).
\<close>

fun exec :: "EdgeDetector \<Rightarrow> opencv \<Rightarrow> OpenCVProcessor \<Rightarrow> call \<Rightarrow> ImageData \<Rightarrow> error + ImageData" where
  "exec ed cv p (CvGaussianBlur k) img = gaussianBlur cv p img k 0"
| "exec ed cv p CvSobel img = sobel cv p img 3"
| "exec ed cv p (CvCanny lo hi) img = canny cv p img lo hi"
| "exec ed cv p CvLaplacian img = laplacian cv p img 3"
| "exec ed cv p CvGrayscale img = grayscale cv p img"
| "exec ed cv p (TsGaussianBlur r) img = ed_gaussianBlur ed img r"
| "exec ed cv p (TsSobel t) img = ed_sobel ed img t"
| "exec ed cv p (TsCanny t) img = ed_canny ed img t"
| "exec ed cv p (TsRoberts t) img = ed_roberts ed img t"
| "exec ed cv p (TsPrewitt t) img = ed_prewitt ed img t"
| "exec ed cv p (TsLaplacian t) img = ed_laplacian ed img t"

text \<open>
  A computation inside the \<^verbatim>\<open>try\<close> block: the calls made so far and either the image
  they produced or the exception that stopped them.
\<close>

type_synonym traced = "call list \<times> (error + ImageData)"

definition invoke :: "EdgeDetector \<Rightarrow> opencv \<Rightarrow> OpenCVProcessor \<Rightarrow> call \<Rightarrow> ImageData \<Rightarrow> traced" where
  "invoke ed cv p c img = ([c], exec ed cv p c img)"

definition and_then :: "traced \<Rightarrow> (ImageData \<Rightarrow> traced) \<Rightarrow> traced" where
  "and_then t f =
     (case snd t of
        Inl e \<Rightarrow> t
      | Inr img \<Rightarrow> (fst t @ fst (f img), snd (f img)))"

text \<open>The two guarded blur statements \<^verbatim>\<open>if (this.config.blurAmount > 0) imageData = ...\<close>.\<close>

definition acceleratedBlur :: "EdgeDetector \<Rightarrow> opencv \<Rightarrow> OpenCVProcessor \<Rightarrow> EdgeDetectionConfig \<Rightarrow> ImageData \<Rightarrow> traced" where
  "acceleratedBlur ed cv p config imageData =
     (if blurAmount config > 0
      then invoke ed cv p (CvGaussianBlur (blurAmount config * 2 + 1)) imageData
      else ([], Inr imageData))"

definition referenceBlur :: "EdgeDetector \<Rightarrow> opencv \<Rightarrow> OpenCVProcessor \<Rightarrow> EdgeDetectionConfig \<Rightarrow> ImageData \<Rightarrow> traced" where
  "referenceBlur ed cv p config imageData =
     (if blurAmount config > 0
      then invoke ed cv p (TsGaussianBlur (blurAmount config)) imageData
      else ([], Inr imageData))"

text \<open>
  The first branch of \<^verbatim>\<open>processFrame\<close> (OpenCV mode, processor ready) and the second
  (everything else). The \<^verbatim>\<open>default\<close> arms of the two switches are unreachable for a
  value of the union type and have no equation.
\<close>

definition acceleratedPath :: "EdgeDetector \<Rightarrow> opencv \<Rightarrow> OpenCVProcessor \<Rightarrow> EdgeDetectionConfig \<Rightarrow> ImageData \<Rightarrow> traced" where
  "acceleratedPath ed cv p config imageData =
     and_then (acceleratedBlur ed cv p config imageData) (\<lambda>imageData.
       case method_name config of
         Sobel \<Rightarrow> invoke ed cv p CvSobel imageData
       | Canny \<Rightarrow> invoke ed cv p (CvCanny (threshold config) (threshold config * 2)) imageData
       | Laplacian \<Rightarrow> invoke ed cv p CvLaplacian imageData
       | Grayscale \<Rightarrow> invoke ed cv p CvGrayscale imageData
       | Roberts \<Rightarrow>
           and_then (referenceBlur ed cv p config imageData)
             (invoke ed cv p (TsRoberts (threshold config)))
       | Prewitt \<Rightarrow>
           and_then (referenceBlur ed cv p config imageData)
             (invoke ed cv p (TsPrewitt (threshold config))))"

definition referencePath :: "EdgeDetector \<Rightarrow> opencv \<Rightarrow> OpenCVProcessor \<Rightarrow> EdgeDetectionConfig \<Rightarrow> ImageData \<Rightarrow> traced" where
  "referencePath ed cv p config imageData =
     and_then (referenceBlur ed cv p config imageData) (\<lambda>imageData.
       case method_name config of
         Sobel \<Rightarrow> invoke ed cv p (TsSobel (threshold config)) imageData
       | Canny \<Rightarrow> invoke ed cv p (TsCanny (threshold config)) imageData
       | Roberts \<Rightarrow> invoke ed cv p (TsRoberts (threshold config)) imageData
       | Prewitt \<Rightarrow> invoke ed cv p (TsPrewitt (threshold config)) imageData
       | Laplacian \<Rightarrow> invoke ed cv p (TsLaplacian (threshold config)) imageData
       | Grayscale \<Rightarrow> invoke ed cv p (TsSobel (threshold config)) imageData)"

definition processImage :: "EdgeDetector \<Rightarrow> opencv \<Rightarrow> OpenCVProcessor \<Rightarrow> EdgeDetectionConfig \<Rightarrow> ImageData \<Rightarrow> traced" where
  "processImage ed cv p config imageData =
     (if mode config = OpenCV \<and> ready p
      then acceleratedPath ed cv p config imageData
      else referencePath ed cv p config imageData)"

text \<open>
  The application object, with what the claims observe of its effects: the errors written
  with \<^verbatim>\<open>console.error\<close>, the frames handed to \<^verbatim>\<open>webglRenderer.render\<close>, the backend calls
  made and the alerts shown.
\<close>

record EdgeDetectionApp =
  config :: EdgeDetectionConfig
  state :: ProcessingState
  opencvProcessor :: OpenCVProcessor
  console :: "error list"
  rendered :: "ImageData list"
  calls :: "call list"
  alerts :: "string list"

text \<open>
  \<^verbatim>\<open>processFrame\<close>. \<open>frame\<close> is what \<^verbatim>\<open>drawImage\<close> and \<^verbatim>\<open>getImageData\<close> deliver (they can
  throw, inside the \<^verbatim>\<open>try\<close>), \<open>rid\<close> the handle \<^verbatim>\<open>requestAnimationFrame\<close> returns. The
  result is what the caller of \<^verbatim>\<open>processFrame\<close> sees: \<open>Inl\<close> would be an exception
  leaving the function. The \<^verbatim>\<open>catch\<close> block logs the error and falls through to the
  scheduling of the next frame.
\<close>

definition try_block :: "EdgeDetector \<Rightarrow> opencv \<Rightarrow> error + ImageData \<Rightarrow> EdgeDetectionApp \<Rightarrow> traced" where
  "try_block ed cv frame app =
     (case frame of
        Inl e \<Rightarrow> ([], Inl e)
      | Inr imageData \<Rightarrow> processImage ed cv (opencvProcessor app) (config app) imageData)"

definition processFrame :: "EdgeDetector \<Rightarrow> opencv \<Rightarrow> nat \<Rightarrow> error + ImageData \<Rightarrow> EdgeDetectionApp \<Rightarrow> error + EdgeDetectionApp" where
  "processFrame ed cv rid frame app =
     (if \<not> isProcessing (state app) then Inr app
      else
        let t = try_block ed cv frame app;
            app1 = app\<lparr>calls := calls app @ fst t\<rparr>;
            app2 = (case snd t of
                      Inr result \<Rightarrow> app1\<lparr>rendered := rendered app1 @ [result]\<rparr>
                    | Inl e \<Rightarrow> app1\<lparr>console := console app1 @ [e]\<rparr>)
        in Inr (app2\<lparr>state := (state app2)\<lparr>animationId := Some rid\<rparr>\<rparr>))"

definition selectMode :: "ProcessingMode \<Rightarrow> EdgeDetectionApp \<Rightarrow> EdgeDetectionApp" where
  "selectMode m app =
     (if m = OpenCV \<and> \<not> ready (opencvProcessor app)
      then app\<lparr>alerts := alerts app @
             [''OpenCV.js is not loaded yet. Please wait or use TypeScript mode.'']\<rparr>
      else app\<lparr>config := (config app)\<lparr>mode := m\<rparr>\<rparr>)"

definition selectAlgorithm :: "EdgeDetectionMethod \<Rightarrow> EdgeDetectionApp \<Rightarrow> EdgeDetectionApp" where
  "selectAlgorithm m app =
     (if m = Grayscale \<and> mode (config app) \<noteq> OpenCV
      then app\<lparr>alerts := alerts app @ [''Grayscale filter is only available in OpenCV mode.'']\<rparr>
      else app\<lparr>config := (config app)\<lparr>method_name := m\<rparr>\<rparr>)"

section \<open>Roberts and Prewitt (Reference only)\<close>

text \<open>
  The two operators the processor does not offer live in the missing edge-detection.ts.
  The definitions of this section follow the spec (4.1 to 4.3).
\<close>

text \<open>
  Modelled from the spec: \<^verbatim>\<open>toGrayscale\<close> of edge-detection.ts is missing. A fixed
  luma weighting (here ITU-R BT.601, rounded to the nearest integer); fails with
  \<open>InvalidDimensions\<close> if the sample array does not have \<open>width * height * 4\<close> entries.
\<close>

definition luma :: "int \<Rightarrow> int \<Rightarrow> int \<Rightarrow> int" where
  "luma r g b = (299 * r + 587 * g + 114 * b + 500) div 1000"

definition toGrayscale :: "ImageData \<Rightarrow> error + int list" where
  "toGrayscale img =
     (if length (data img) \<noteq> 4 * width img * height img then Inl InvalidDimensions
      else Inr (map (\<lambda>i. luma (uint (data img ! (4 * i))) (uint (data img ! (4 * i + 1)))
                              (uint (data img ! (4 * i + 2))))
                [0..<width img * height img]))"

text \<open>
  Modelled from the spec: the replicate-edge border policy of the missing convolution
  engine. A coordinate outside the buffer reads the nearest valid pixel.
\<close>

definition pixel :: "nat \<Rightarrow> nat \<Rightarrow> int list \<Rightarrow> int \<Rightarrow> int \<Rightarrow> int" where
  "pixel w h g x y =
     g ! (nat (max 0 (min (int h - 1) y)) * w + nat (max 0 (min (int w - 1) x)))"

text \<open>
  Modelled from the spec: the final emission of an operator of the missing file, one
  intensity per pixel replicated to RGBA with full alpha, in a buffer of the input's size.
\<close>

definition emit :: "nat \<Rightarrow> nat \<Rightarrow> (int \<Rightarrow> int \<Rightarrow> int) \<Rightarrow> ImageData" where
  "emit w h f =
     \<lparr>width = w, height = h,
      data = concat (map (\<lambda>i. let v = word_of_int (f (int (i mod w)) (int (i div w)))
                               in [v, v, v, 255])
                         [0..<w * h])\<rparr>"

text \<open>
  Modelled from the spec: hard binarization of the missing file; a magnitude at or above
  the threshold emits 255, any other 0.
\<close>

definition binarize :: "int \<Rightarrow> real \<Rightarrow> int" where
  "binarize t magnitude = (if of_int t \<le> magnitude then 255 else 0)"

text \<open>
  Modelled from the spec: \<^verbatim>\<open>EdgeDetector.prewitt\<close> of edge-detection.ts is missing.
  The structure of Sobel with the uniform-weight 3 by 3 kernels, magnitude
  \<open>0.5*|Gx| + 0.5*|Gy|\<close>, binarized against the threshold.
\<close>

definition prewitt_gx :: "nat \<Rightarrow> nat \<Rightarrow> int list \<Rightarrow> int \<Rightarrow> int \<Rightarrow> int" where
  "prewitt_gx w h g x y =
     (pixel w h g (x + 1) (y - 1) + pixel w h g (x + 1) y + pixel w h g (x + 1) (y + 1))
     - (pixel w h g (x - 1) (y - 1) + pixel w h g (x - 1) y + pixel w h g (x - 1) (y + 1))"

definition prewitt_gy :: "nat \<Rightarrow> nat \<Rightarrow> int list \<Rightarrow> int \<Rightarrow> int \<Rightarrow> int" where
  "prewitt_gy w h g x y =
     (pixel w h g (x - 1) (y + 1) + pixel w h g x (y + 1) + pixel w h g (x + 1) (y + 1))
     - (pixel w h g (x - 1) (y - 1) + pixel w h g x (y - 1) + pixel w h g (x + 1) (y - 1))"

definition prewitt :: "ImageData \<Rightarrow> int \<Rightarrow> error + ImageData" where
  "prewitt img t =
     (case toGrayscale img of
        Inl e \<Rightarrow> Inl e
      | Inr g \<Rightarrow>
          Inr (emit (width img) (height img) (\<lambda>x y.
                 binarize t (1 / 2 * of_int \<bar>prewitt_gx (width img) (height img) g x y\<bar>
                            + 1 / 2 * of_int \<bar>prewitt_gy (width img) (height img) g x y\<bar>))))"

text \<open>
  Modelled from the spec: \<^verbatim>\<open>EdgeDetector.roberts\<close> of edge-detection.ts is missing.
  The two diagonal differences of a 2 by 2 neighbourhood; the spec leaves their
  combination open, so it is the parameter \<open>combine\<close>; thresholded as Prewitt.
\<close>

definition roberts :: "(int \<Rightarrow> int \<Rightarrow> real) \<Rightarrow> ImageData \<Rightarrow> int \<Rightarrow> error + ImageData" where
  "roberts combine img t =
     (case toGrayscale img of
        Inl e \<Rightarrow> Inl e
      | Inr g \<Rightarrow>
          Inr (emit (width img) (height img) (\<lambda>x y.
                 binarize t
                   (combine
                      (pixel (width img) (height img) g x y
                       - pixel (width img) (height img) g (x + 1) (y + 1))
                      (pixel (width img) (height img) g (x + 1) y
                       - pixel (width img) (height img) g x (y + 1))))))"

section \<open>Notions the theorems are stated with\<close>

text \<open>
  What it is for a frame to be processed on the Reference backend by the operator \<open>op\<close>,
  logged as the call \<open>c\<close>, with blur amount \<open>b\<close>: if \<open>b\<close> is positive the frame goes
  through \<^verbatim>\<open>EdgeDetector.gaussianBlur\<close> with radius \<open>b\<close> first, and an error there ends
  the frame; the operator is applied to the frame, blurred or not, and its result is the
  frame's.
\<close>

definition reference_outcome :: "EdgeDetector \<Rightarrow> int \<Rightarrow> call \<Rightarrow> (ImageData \<Rightarrow> error + ImageData) \<Rightarrow> ImageData \<Rightarrow> traced" where
  "reference_outcome ed b c op img =
     (if 0 < b then
        (case ed_gaussianBlur ed img b of
           Inl e \<Rightarrow> ([TsGaussianBlur b], Inl e)
         | Inr blurred \<Rightarrow> ([TsGaussianBlur b, c], op blurred))
      else ([c], op img))"

text \<open>
  The sample \<^verbatim>\<open>sobel\<close> computes from one pair of gradient samples: \<^verbatim>\<open>convertScaleAbs\<close>
  on each, then \<^verbatim>\<open>addWeighted\<close> with the weights 0.5, 0.5 and the offset 0.
\<close>

definition sobel_sample :: "int \<Rightarrow> int \<Rightarrow> int" where
  "sobel_sample gx gy =
     saturate_u8 (cvRound (of_int (saturate_u8 \<bar>gx\<bar>) * (1 / 2)
                           + of_int (saturate_u8 \<bar>gy\<bar>) * (1 / 2) + 0))"

text \<open>Half of an integer, rounded to the nearest integer with ties to even.\<close>

definition round_half_even :: "int \<Rightarrow> int" where
  "round_half_even s =
     (if even s then s div 2 else if even (s div 2) then s div 2 else s div 2 + 1)"

section \<open>What the theorems assume of the library\<close>

text \<open>
  A matrix is well formed when it holds one sample per row, column and channel. The
  assumption on the library is what OpenCV documents of a call that it accepts: the
  destination has the size of the source, with the channel count and depth the call asks
  for. It is made only
  \<^item> of the luma conversion on a four-channel 8-bit matrix,
  \<^item> of the Gaussian blur with a positive odd aperture in each direction,
  \<^item> of the Sobel derivative of order one in \<open>x\<close> or in \<open>y\<close> with aperture 1, 3, 5 or 7,
  \<^item> of the Laplacian with a positive odd aperture up to 31,
  \<^item> of Canny on a one-channel 8-bit matrix;
  nothing is assumed of a call with any other argument: it may throw.
\<close>

definition mat_ok :: "Mat \<Rightarrow> bool" where
  "mat_ok m \<longleftrightarrow> length (elems m) = rows m * cols m * channels m"

definition sized_like :: "Mat \<Rightarrow> Mat \<Rightarrow> nat \<Rightarrow> depth \<Rightarrow> bool" where
  "sized_like dst src ch d \<longleftrightarrow>
     rows dst = rows src \<and> cols dst = cols src \<and> channels dst = ch \<and> depth dst = d \<and>
     length (elems dst) = rows src * cols src * ch"

definition returns_sized :: "error + Mat \<Rightarrow> Mat \<Rightarrow> nat \<Rightarrow> depth \<Rightarrow> bool" where
  "returns_sized r src ch d = (case r of Inl e \<Rightarrow> False | Inr dst \<Rightarrow> sized_like dst src ch d)"

definition cv_keeps_size :: "opencv \<Rightarrow> bool" where
  "cv_keeps_size cv \<longleftrightarrow>
     (\<forall>m. mat_ok m \<and> channels m = 4 \<and> depth m = CV_8U \<longrightarrow>
          sized_like (cv_RGBA2GRAY cv m) m 1 CV_8U) \<and>
     (\<forall>m kw kh s. mat_ok m \<and> 0 < kw \<and> odd kw \<and> 0 < kh \<and> odd kh \<longrightarrow>
          returns_sized (cv_GaussianBlur cv m (kw, kh) s) m (channels m) (depth m)) \<and>
     (\<forall>m d dx dy k. mat_ok m \<and> dx + dy = 1 \<and> k \<in> {1, 3, 5, 7} \<longrightarrow>
          returns_sized (cv_Sobel cv m d dx dy k) m (channels m) d) \<and>
     (\<forall>m d k. mat_ok m \<and> 0 < k \<and> odd k \<and> k \<le> 31 \<longrightarrow>
          returns_sized (cv_Laplacian cv m d k) m (channels m) d) \<and>
     (\<forall>m lo hi. mat_ok m \<and> channels m = 1 \<and> depth m = CV_8U \<longrightarrow>
          sized_like (cv_Canny cv m lo hi) m 1 CV_8U)"

text \<open>What the dimension claim asks of an operator's outcome on the input \<open>img\<close>.\<close>

definition same_size_rgba :: "ImageData \<Rightarrow> error + ImageData \<Rightarrow> bool" where
  "same_size_rgba img r =
     (case r of
        Inl e \<Rightarrow> False
      | Inr out \<Rightarrow> width out = width img \<and> height out = height img \<and>
                   length (data out) = 4 * width out * height out)"

section \<open>A library instance and sample inputs\<close>

text \<open>
  A library instance to run the processor on, used to instantiate theorems at concrete
  inputs. Its filters are the 3 by 3 ones of OpenCV with the library's default border
  (\<^verbatim>\<open>BORDER_REFLECT_101\<close>: the pixel beyond the edge is the one as far inside it):
  \<^item> the blur of aperture 1 copies; the blur of aperture 3 weighs with \<open>[1 2 1]/4\<close> in
    each direction and rounds to the nearest integer;
  \<^item> the Sobel derivative of aperture 3 has the kernel \<open>[-1 0 1]\<close> across \<open>[1 2 1]\<close>;
  \<^item> the Laplacian of aperture 3 has the kernel \<open>[2 0 2; 0 -8 0; 2 0 2]\<close>;
  \<^item> an aperture that is even or not positive, or a derivative other than the first in
    \<open>x\<close> or \<open>y\<close>, throws.
  Three shortcuts make it an instance for running, not a description of the library: the
  luma weights are the BT.601 ones rounded to the nearest integer, larger odd apertures
  reuse the aperture-3 kernel, and Canny marks the pixels whose gradient magnitude
  \<open>|Gx| + |Gy|\<close> exceeds the larger threshold, with no thinning and no hysteresis. The
  theorems below use it at apertures 1 and 3 only.
\<close>

definition reflect101 :: "nat \<Rightarrow> int \<Rightarrow> nat" where
  "reflect101 n i =
     (if n \<le> 1 then 0 else if i < 0 then nat (- i)
      else if int n \<le> i then nat (2 * int n - 2 - i) else nat i)"

definition mat_at :: "Mat \<Rightarrow> int \<Rightarrow> int \<Rightarrow> nat \<Rightarrow> int" where
  "mat_at m y x c =
     elems m ! ((reflect101 (rows m) y * cols m + reflect101 (cols m) x) * channels m + c)"

definition filter3 :: "(int \<Rightarrow> int \<Rightarrow> int) \<Rightarrow> Mat \<Rightarrow> nat \<Rightarrow> int" where
  "filter3 w m i =
     (let c = i mod channels m;
          x = int ((i div channels m) mod cols m);
          y = int (i div (channels m * cols m))
      in sum_list (map (\<lambda>(dy, dx). w dy dx * mat_at m (y + dy) (x + dx) c)
                       [(- 1, - 1), (- 1, 0), (- 1, 1), (0, - 1), (0, 0), (0, 1),
                        (1, - 1), (1, 0), (1, 1)]))"

definition smooth3 :: "int \<Rightarrow> int" where
  "smooth3 d = (if d = 0 then 2 else 1)"

definition filtered :: "Mat \<Rightarrow> depth \<Rightarrow> (nat \<Rightarrow> int) \<Rightarrow> Mat" where
  "filtered m d f = m\<lparr>depth := d, elems := map f [0..<rows m * cols m * channels m]\<rparr>"

definition sample_RGBA2GRAY :: "Mat \<Rightarrow> Mat" where
  "sample_RGBA2GRAY m =
     \<lparr>rows = rows m, cols = cols m, depth = CV_8U, channels = 1,
      elems = map (\<lambda>i. saturate_u8 (luma (elems m ! (4 * i)) (elems m ! (4 * i + 1))
                                          (elems m ! (4 * i + 2))))
                  [0..<rows m * cols m]\<rparr>"

definition sample_GaussianBlur :: "Mat \<Rightarrow> int \<times> int \<Rightarrow> int \<Rightarrow> error + Mat" where
  "sample_GaussianBlur m ksize sigma =
     (if fst ksize = 1 \<and> snd ksize = 1 then Inr m
      else if 0 < fst ksize \<and> odd (fst ksize) \<and> 0 < snd ksize \<and> odd (snd ksize)
      then Inr (filtered m (depth m)
                  (\<lambda>i. (filter3 (\<lambda>dy dx. smooth3 dy * smooth3 dx) m i + 8) div 16))
      else Inl CvException)"

definition sample_Sobel :: "Mat \<Rightarrow> depth \<Rightarrow> nat \<Rightarrow> nat \<Rightarrow> int \<Rightarrow> error + Mat" where
  "sample_Sobel m d dx dy ksize =
     (if ksize \<notin> {1, 3, 5, 7} then Inl CvException
      else if dx = 1 \<and> dy = 0 then Inr (filtered m d (filter3 (\<lambda>dy dx. smooth3 dy * dx) m))
      else if dx = 0 \<and> dy = 1 then Inr (filtered m d (filter3 (\<lambda>dy dx. dy * smooth3 dx) m))
      else Inl CvException)"

definition sample_Laplacian :: "Mat \<Rightarrow> depth \<Rightarrow> int \<Rightarrow> error + Mat" where
  "sample_Laplacian m d ksize =
     (if 0 < ksize \<and> odd ksize \<and> ksize \<le> 31
      then Inr (filtered m d
                  (filter3 (\<lambda>dy dx. if dy = 0 \<and> dx = 0 then - 8
                                     else if dy = 0 \<or> dx = 0 then 0 else 2) m))
      else Inl CvException)"

definition sample_Canny :: "Mat \<Rightarrow> int \<Rightarrow> int \<Rightarrow> Mat" where
  "sample_Canny m lo hi =
     \<lparr>rows = rows m, cols = cols m, depth = CV_8U, channels = 1,
      elems = map (\<lambda>i. if max lo hi < \<bar>filter3 (\<lambda>dy dx. smooth3 dy * dx) m i\<bar>
                                       + \<bar>filter3 (\<lambda>dy dx. dy * smooth3 dx) m i\<bar>
                        then 255 else 0)
                  [0..<rows m * cols m]\<rparr>"

definition cv_sample :: opencv where
  "cv_sample =
     \<lparr>cv_RGBA2GRAY = sample_RGBA2GRAY,
      cv_GaussianBlur = sample_GaussianBlur,
      cv_Sobel = sample_Sobel,
      cv_Laplacian = sample_Laplacian,
      cv_Canny = sample_Canny\<rparr>"

text \<open>
  Two Reference instances for the driver: one whose operators hand the image back (Roberts
  and Prewitt as modelled above, the Roberts differences combined as \<open>|d1| + |d2|\<close>), and
  one whose Sobel raises \<open>InvalidDimensions\<close>.
\<close>

definition cross_magnitude :: "int \<Rightarrow> int \<Rightarrow> real" where
  "cross_magnitude a b = of_int (\<bar>a\<bar> + \<bar>b\<bar>)"

definition ed_sample :: EdgeDetector where
  "ed_sample =
     \<lparr>ed_gaussianBlur = (\<lambda>img r. Inr img),
      ed_sobel = (\<lambda>img t. Inr img),
      ed_canny = (\<lambda>img t. Inr img),
      ed_roberts = roberts cross_magnitude,
      ed_prewitt = prewitt,
      ed_laplacian = (\<lambda>img t. Inr img)\<rparr>"

definition ed_raising :: EdgeDetector where
  "ed_raising = ed_sample\<lparr>ed_sobel := (\<lambda>img t. Inl InvalidDimensions)\<rparr>"

definition red_pixel :: ImageData where
  "red_pixel = \<lparr>width = 1, height = 1, data = [255, 0, 0, 255]\<rparr>"

definition white_pixel :: ImageData where
  "white_pixel = \<lparr>width = 1, height = 1, data = [255, 255, 255, 255]\<rparr>"

text \<open>A row of four pixels, the left half black and the right half white.\<close>

definition step_edge :: ImageData where
  "step_edge =
     \<lparr>width = 4, height = 1,
      data = [0, 0, 0, 255, 0, 0, 0, 255, 255, 255, 255, 255, 255, 255, 255, 255]\<rparr>"

definition sample_config :: EdgeDetectionConfig where
  "sample_config = \<lparr>threshold = 40, blurAmount = 1, method_name = Sobel, mode = OpenCV\<rparr>"

definition sample_app :: EdgeDetectionApp where
  "sample_app =
     \<lparr>config = sample_config,
      state = \<lparr>isProcessing = True, animationId = None\<rparr>,
      opencvProcessor = \<lparr>isReady = True\<rparr>,
      console = [], rendered = [], calls = [], alerts = []\<rparr>"


definition roberts_config :: EdgeDetectionConfig where
  "roberts_config = \<lparr>threshold = 40, blurAmount = 1, method_name = Roberts, mode = OpenCV\<rparr>"

definition grayscale_config :: EdgeDetectionConfig where
  "grayscale_config = \<lparr>threshold = 40, blurAmount = 1, method_name = Grayscale, mode = TypeScript\<rparr>"

definition typescript_app :: EdgeDetectionApp where
  "typescript_app =
     sample_app\<lparr>config := \<lparr>threshold = 40, blurAmount = 0, method_name = Sobel, mode = TypeScript\<rparr>\<rparr>"

section \<open>Traces\<close>

lemmas path_defs = processImage_def acceleratedPath_def referencePath_def acceleratedBlur_def
  referenceBlur_def and_then_def invoke_def ready_def


lemma snd_and_then:
  "snd (and_then t f) = (case snd t of Inl e \<Rightarrow> Inl e | Inr img \<Rightarrow> snd (f img))"
  by (simp add: and_then_def split: sum.splits)

lemma reference_no_accel:
  "c \<in> set (fst (referencePath ed cv p cfg img)) \<Longrightarrow> \<not> is_accelerated c"
  by (cases "method_name cfg") (auto simp: path_defs split: sum.splits if_splits)

text \<open>One Reference operator after the Reference blur statement.\<close>

lemma reference_step:
  "and_then (referenceBlur ed cv p cfg img) (invoke ed cv p c)
     = reference_outcome ed (blurAmount cfg) c (exec ed cv p c) img"
  by (cases "ed_gaussianBlur ed img (blurAmount cfg)")
     (simp_all add: referenceBlur_def and_then_def invoke_def reference_outcome_def)

lemma exec_reference:
  "exec ed cv p (TsSobel t) = (\<lambda>im. ed_sobel ed im t)"
  "exec ed cv p (TsCanny t) = (\<lambda>im. ed_canny ed im t)"
  "exec ed cv p (TsRoberts t) = (\<lambda>im. ed_roberts ed im t)"
  "exec ed cv p (TsPrewitt t) = (\<lambda>im. ed_prewitt ed im t)"
  "exec ed cv p (TsLaplacian t) = (\<lambda>im. ed_laplacian ed im t)"
  by (simp_all add: fun_eq_iff)

lemma referencePath_outcome:
  "referencePath ed cv p cfg img =
     reference_outcome ed (blurAmount cfg)
       (case method_name cfg of
          Sobel \<Rightarrow> TsSobel (threshold cfg) | Canny \<Rightarrow> TsCanny (threshold cfg)
        | Roberts \<Rightarrow> TsRoberts (threshold cfg) | Prewitt \<Rightarrow> TsPrewitt (threshold cfg)
        | Laplacian \<Rightarrow> TsLaplacian (threshold cfg) | Grayscale \<Rightarrow> TsSobel (threshold cfg))
       (\<lambda>im. case method_name cfg of
          Sobel \<Rightarrow> ed_sobel ed im (threshold cfg) | Canny \<Rightarrow> ed_canny ed im (threshold cfg)
        | Roberts \<Rightarrow> ed_roberts ed im (threshold cfg) | Prewitt \<Rightarrow> ed_prewitt ed im (threshold cfg)
        | Laplacian \<Rightarrow> ed_laplacian ed im (threshold cfg)
        | Grayscale \<Rightarrow> ed_sobel ed im (threshold cfg))
       img"
  by (cases "method_name cfg")
     (simp_all add: referencePath_def reference_step exec_reference)

lemma roberts_prewitt_reference:
  assumes "method_name cfg = Roberts \<or> method_name cfg = Prewitt"
  shows "referencePath ed cv p cfg img =
     reference_outcome ed (blurAmount cfg)
       (if method_name cfg = Roberts then TsRoberts (threshold cfg) else TsPrewitt (threshold cfg))
       (\<lambda>im. if method_name cfg = Roberts then ed_roberts ed im (threshold cfg)
              else ed_prewitt ed im (threshold cfg))
       img"
  using assms by (auto simp: referencePath_outcome)

lemma roberts_prewitt_accelerated:
  assumes "method_name cfg = Roberts \<or> method_name cfg = Prewitt"
  shows "acceleratedPath ed cv p cfg img =
     and_then (acceleratedBlur ed cv p cfg img) (\<lambda>im.
       reference_outcome ed (blurAmount cfg)
         (if method_name cfg = Roberts then TsRoberts (threshold cfg) else TsPrewitt (threshold cfg))
         (\<lambda>im. if method_name cfg = Roberts then ed_roberts ed im (threshold cfg)
                else ed_prewitt ed im (threshold cfg))
         im)"
  using assms by (auto simp: acceleratedPath_def reference_step exec_reference)

section \<open>Matrix sizes through the processor\<close>

lemma sized_like_mat_ok: "sized_like m src ch d \<Longrightarrow> mat_ok m"
  by (simp add: sized_like_def mat_ok_def)

lemma matFromImageData_sized:
  "valid_image img \<Longrightarrow> sized_like (matFromImageData img) (matFromImageData img) 4 CV_8U"
  by (simp add: sized_like_def matFromImageData_def valid_image_def mult.commute mult.left_commute)

lemma length_concat_quads: "length (concat (map (\<lambda>v. [f v, g v, h v, k v]) xs)) = 4 * length xs"
  by (induction xs) simp_all

lemma gray2rgba_sized: "sized_like g src 1 d \<Longrightarrow> sized_like (gray2rgba g) src 4 d"
  by (simp add: sized_like_def gray2rgba_def length_concat_quads)

lemma convertScaleAbs_sized: "sized_like g src ch d \<Longrightarrow> sized_like (convertScaleAbs g) src ch CV_8U"
  by (simp add: sized_like_def convertScaleAbs_def)

lemma addWeighted_sized:
  "sized_like a src ch d \<Longrightarrow> sized_like b src ch d' \<Longrightarrow> sized_like (addWeighted a al b be ga) src ch d"
  by (simp add: sized_like_def addWeighted_def)

lemma toImageData_sized:
  assumes "sized_like m (matFromImageData img) 4 CV_8U" and "valid_image img"
  shows "toImageData m = Inr \<lparr>width = width img, height = height img, data = map word_of_int (elems m)\<rparr>"
  using assms
  by (simp add: toImageData_def new_ImageData_def mat_data_def sized_like_def matFromImageData_def
      valid_image_def mult.commute mult.left_commute)

lemma same_size_rgba_sized:
  assumes "sized_like m (matFromImageData img) 4 CV_8U" and "valid_image img"
  shows "same_size_rgba img (toImageData m)"
  using assms(1) toImageData_sized[OF assms]
  by (simp add: same_size_rgba_def sized_like_def matFromImageData_def mult.commute mult.left_commute)

lemma cv_keeps_sizeD:
  assumes "cv_keeps_size cv" and "mat_ok m"
  shows "channels m = 4 \<Longrightarrow> depth m = CV_8U \<Longrightarrow> sized_like (cv_RGBA2GRAY cv m) m 1 CV_8U"
    and "0 < kw \<Longrightarrow> odd kw \<Longrightarrow> 0 < kh \<Longrightarrow> odd kh \<Longrightarrow>
           returns_sized (cv_GaussianBlur cv m (kw, kh) s) m (channels m) (depth m)"
    and "dx + dy = 1 \<Longrightarrow> k \<in> {1, 3, 5, 7} \<Longrightarrow>
           returns_sized (cv_Sobel cv m d dx dy k) m (channels m) d"
    and "0 < kl \<Longrightarrow> odd kl \<Longrightarrow> kl \<le> 31 \<Longrightarrow>
           returns_sized (cv_Laplacian cv m d kl) m (channels m) d"
    and "channels m = 1 \<Longrightarrow> depth m = CV_8U \<Longrightarrow> sized_like (cv_Canny cv m lo hi) m 1 CV_8U"
  using assms unfolding cv_keeps_size_def by blast+

lemma returns_sizedE:
  assumes "returns_sized r m ch d"
  obtains dst where "r = Inr dst" and "sized_like dst m ch d"
  using assms by (cases r) (simp_all add: returns_sized_def)

lemma cv_gray_sized:
  assumes "cv_keeps_size cv" and "valid_image img"
  shows "sized_like (cvtColor cv (matFromImageData img) COLOR_RGBA2GRAY) (matFromImageData img) 1 CV_8U"
proof -
  have "channels (matFromImageData img) = 4" "depth (matFromImageData img) = CV_8U"
    by (simp_all add: matFromImageData_def)
  from cv_keeps_sizeD(1)[OF assms(1) sized_like_mat_ok[OF matFromImageData_sized[OF assms(2)]] this]
  show ?thesis by (simp add: cvtColor_def)
qed

lemma cv_blur_sized:
  assumes "cv_keeps_size cv" and "sized_like m src ch d"
    and "0 < kw" "odd kw" "0 < kh" "odd kh"
  obtains b where "cv_GaussianBlur cv m (kw, kh) s = Inr b" and "sized_like b src ch d"
proof -
  from cv_keeps_sizeD(2)[OF assms(1) sized_like_mat_ok[OF assms(2)] assms(3-6), of s]
  obtain b where b: "cv_GaussianBlur cv m (kw, kh) s = Inr b"
      "sized_like b m (channels m) (depth m)"
    by (rule returns_sizedE)
  from b(2) assms(2) have "sized_like b src ch d" by (simp add: sized_like_def)
  with b(1) that show ?thesis by blast
qed

lemma cv_Sobel_sized:
  assumes "cv_keeps_size cv" and "sized_like m src ch d"
    and "dx + dy = 1" "k \<in> {1, 3, 5, 7}"
  obtains g where "cv_Sobel cv m d' dx dy k = Inr g" and "sized_like g src ch d'"
proof -
  from cv_keeps_sizeD(3)[OF assms(1) sized_like_mat_ok[OF assms(2)] assms(3,4), of d']
  obtain g where g: "cv_Sobel cv m d' dx dy k = Inr g" "sized_like g m (channels m) d'"
    by (rule returns_sizedE)
  from g(2) assms(2) have "sized_like g src ch d'" by (simp add: sized_like_def)
  with g(1) that show ?thesis by blast
qed

lemma cv_Laplacian_sized:
  assumes "cv_keeps_size cv" and "sized_like m src ch d"
    and "0 < k" "odd k" "k \<le> 31"
  obtains l where "cv_Laplacian cv m d' k = Inr l" and "sized_like l src ch d'"
proof -
  from cv_keeps_sizeD(4)[OF assms(1) sized_like_mat_ok[OF assms(2)] assms(3-5), of d']
  obtain l where l: "cv_Laplacian cv m d' k = Inr l" "sized_like l m (channels m) d'"
    by (rule returns_sizedE)
  from l(2) assms(2) have "sized_like l src ch d'" by (simp add: sized_like_def)
  with l(1) that show ?thesis by blast
qed

lemma cv_Canny_sized:
  assumes "cv_keeps_size cv" and "sized_like m src 1 CV_8U"
  shows "sized_like (cv_Canny cv m lo hi) src 1 CV_8U"
proof -
  have "channels m = 1" "depth m = CV_8U" using assms(2) by (simp_all add: sized_like_def)
  from cv_keeps_sizeD(5)[OF assms(1) sized_like_mat_ok[OF assms(2)] this, of lo hi] assms(2)
  show ?thesis by (simp add: sized_like_def)
qed

lemma blur3_sized:
  assumes "cv_keeps_size cv" and "valid_image img"
  obtains blurred where
    "cv_GaussianBlur cv (cvtColor cv (matFromImageData img) COLOR_RGBA2GRAY) (3, 3) 0 = Inr blurred"
    and "sized_like blurred (matFromImageData img) 1 CV_8U"
  by (rule cv_blur_sized[OF assms(1) cv_gray_sized[OF assms], of 3 3 0]) simp_all

lemma sobel_grad_sized:
  assumes "cv_keeps_size cv" and "valid_image img" and "k \<in> {1, 3, 5, 7}"
    and "axis = (1, 0) \<or> axis = (0, 1)"
  obtains g where "sobel_grad cv img axis k = Inr g"
    and "sized_like g (matFromImageData img) 1 CV_16S"
proof -
  obtain blurred where b:
    "cv_GaussianBlur cv (cvtColor cv (matFromImageData img) COLOR_RGBA2GRAY) (3, 3) 0 = Inr blurred"
    "sized_like blurred (matFromImageData img) 1 CV_8U"
    by (rule blur3_sized[OF assms(1,2)])
  have ax: "fst axis + snd axis = 1" using assms(4) by auto
  obtain g where g: "cv_Sobel cv blurred CV_16S (fst axis) (snd axis) k = Inr g"
    "sized_like g (matFromImageData img) 1 CV_16S"
    by (rule cv_Sobel_sized[OF assms(1) b(2) ax assms(3), of CV_16S])
  from b(1) g(1) have "sobel_grad cv img axis k = Inr g" by (simp add: sobel_grad_def)
  with g(2) that show ?thesis by blast
qed

lemma sobel_unfold:
  assumes "isReady p" and "sobel_grad cv img (1, 0) k = Inr gradX"
    and "sobel_grad cv img (0, 1) k = Inr gradY"
  shows "sobel cv p img k =
     toImageData (gray2rgba (addWeighted (convertScaleAbs gradX) (1 / 2)
                               (convertScaleAbs gradY) (1 / 2) 0))"
  using assms
  by (auto simp: sobel_def sobel_grad_def cvtColor_def Let_def split: sum.splits)

lemma canny_same_size:
  assumes "isReady p" and "cv_keeps_size cv" and "valid_image img"
  shows "same_size_rgba img (canny cv p img lo hi)"
  using assms(1)
    same_size_rgba_sized[OF gray2rgba_sized[OF cv_Canny_sized[OF assms(2) cv_gray_sized[OF assms(2,3)]]]
      assms(3)]
  by (simp add: canny_def cvtColor_def Let_def)

lemma grayscale_same_size:
  assumes "isReady p" and "cv_keeps_size cv" and "valid_image img"
  shows "same_size_rgba img (grayscale cv p img)"
  using assms(1) same_size_rgba_sized[OF gray2rgba_sized[OF cv_gray_sized[OF assms(2,3)]] assms(3)]
  by (simp add: grayscale_def cvtColor_def Let_def)

lemma sobel_same_size:
  assumes "isReady p" and "cv_keeps_size cv" and "valid_image img" and "k \<in> {1, 3, 5, 7}"
  shows "same_size_rgba img (sobel cv p img k)"
proof -
  obtain gx where gx: "sobel_grad cv img (1, 0) k = Inr gx"
    "sized_like gx (matFromImageData img) 1 CV_16S"
    by (rule sobel_grad_sized[OF assms(2,3,4), of "(1, 0)"]) simp
  obtain gy where gy: "sobel_grad cv img (0, 1) k = Inr gy"
    "sized_like gy (matFromImageData img) 1 CV_16S"
    by (rule sobel_grad_sized[OF assms(2,3,4), of "(0, 1)"]) simp
  have "sized_like (gray2rgba (addWeighted (convertScaleAbs gx) (1 / 2) (convertScaleAbs gy) (1 / 2) 0))
          (matFromImageData img) 4 CV_8U"
    by (rule gray2rgba_sized[OF addWeighted_sized[OF convertScaleAbs_sized[OF gx(2)]
          convertScaleAbs_sized[OF gy(2)]]])
  from same_size_rgba_sized[OF this assms(3)] show ?thesis
    unfolding sobel_unfold[OF assms(1) gx(1) gy(1)] .
qed

lemma gaussianBlur_same_size:
  assumes "isReady p" and "cv_keeps_size cv" and "valid_image img" and "0 < k" "odd k"
  shows "same_size_rgba img (gaussianBlur cv p img k s)"
proof -
  obtain b where b: "cv_GaussianBlur cv (matFromImageData img) (k, k) s = Inr b"
    "sized_like b (matFromImageData img) 4 CV_8U"
    by (rule cv_blur_sized[OF assms(2) matFromImageData_sized[OF assms(3)] assms(4,5,4,5), of s])
  from same_size_rgba_sized[OF b(2) assms(3)] assms(1) b(1) show ?thesis
    by (simp add: gaussianBlur_def Let_def)
qed

lemma laplacian_same_size:
  assumes "isReady p" and "cv_keeps_size cv" and "valid_image img"
    and "0 < k" "odd k" "k \<le> 31"
  shows "same_size_rgba img (laplacian cv p img k)"
proof -
  obtain blurred where b:
    "cv_GaussianBlur cv (cvtColor cv (matFromImageData img) COLOR_RGBA2GRAY) (3, 3) 0 = Inr blurred"
    "sized_like blurred (matFromImageData img) 1 CV_8U"
    by (rule blur3_sized[OF assms(2,3)])
  obtain l where l: "cv_Laplacian cv blurred CV_16S k = Inr l"
    "sized_like l (matFromImageData img) 1 CV_16S"
    by (rule cv_Laplacian_sized[OF assms(2) b(2) assms(4,5,6), of CV_16S])
  have "sized_like (gray2rgba (convertScaleAbs l)) (matFromImageData img) 4 CV_8U"
    by (rule gray2rgba_sized[OF convertScaleAbs_sized[OF l(2)]])
  from same_size_rgba_sized[OF this assms(3)] assms(1) b(1) l(1) show ?thesis
    by (simp add: laplacian_def cvtColor_def Let_def)
qed

text \<open>An aperture the library rejects: its exception is the operation's.\<close>

lemma gaussianBlur_rejected:
  "isReady p \<Longrightarrow> cv_GaussianBlur cv (matFromImageData img) (k, k) s = Inl e \<Longrightarrow>
     gaussianBlur cv p img k s = Inl e"
  by (simp add: gaussianBlur_def Let_def)

lemma emit_size:
  "width (emit w h f) = w \<and> height (emit w h f) = h \<and> length (data (emit w h f)) = 4 * w * h"
proof -
  have "length (concat (map (\<lambda>i. let v = word_of_int (f (int (i mod w)) (int (i div w))) :: 8 word
                               in [v, v, v, 255]) xs)) = 4 * length xs" for xs
    by (induction xs) (simp_all add: Let_def)
  then show ?thesis by (simp add: emit_def)
qed

lemma prewitt_same_size: "valid_image img \<Longrightarrow> same_size_rgba img (prewitt img t)"
  by (simp add: prewitt_def toGrayscale_def valid_image_def same_size_rgba_def emit_size)

lemma roberts_same_size: "valid_image img \<Longrightarrow> same_size_rgba img (roberts combine img t)"
  by (simp add: roberts_def toGrayscale_def valid_image_def same_size_rgba_def emit_size)

lemma cv_sample_keeps_size: "cv_keeps_size cv_sample"
  unfolding cv_keeps_size_def
  by (auto simp: cv_sample_def sample_RGBA2GRAY_def sample_GaussianBlur_def sample_Sobel_def
      sample_Laplacian_def sample_Canny_def filtered_def returns_sized_def sized_like_def
      mat_ok_def)

section \<open>Rounding and sample positions\<close>

lemma cvRound_half: "cvRound (of_int s / 2) = round_half_even s"
proof -
  have fl: "\<lfloor>(of_int s :: real) / 2\<rfloor> = s div 2"
    using floor_divide_of_int_eq[of s 2, where ?'a = real] by simp
  show ?thesis
  proof (cases "even s")
    case True
    then obtain q where "s = 2 * q" unfolding dvd_def by blast
    then show ?thesis using fl by (simp add: cvRound_def Let_def round_half_even_def)
  next
    case False
    then obtain q where q: "s = 2 * q + 1" by (auto elim: oddE)
    then have d: "s div 2 = q" by simp
    have "(of_int s :: real) / 2 - of_int (s div 2) = 1 / 2"
      unfolding d unfolding q by (simp add: field_simps)
    then show ?thesis using fl False by (simp add: cvRound_def Let_def round_half_even_def)
  qed
qed

lemma round_half_even_bounds:
  assumes "0 \<le> s" and "s \<le> 510"
  shows "0 \<le> round_half_even s" and "round_half_even s \<le> 255"
    and "\<bar>2 * round_half_even s - s\<bar> \<le> 1"
proof -
  consider "even s" | "odd s" "even (s div 2)" | "odd s" "odd (s div 2)" by blast
  then have "0 \<le> round_half_even s \<and> round_half_even s \<le> 255 \<and> \<bar>2 * round_half_even s - s\<bar> \<le> 1"
  proof cases
    case 1
    then have "round_half_even s = s div 2" by (simp add: round_half_even_def)
    with 1 assms show ?thesis by presburger
  next
    case 2
    then have "round_half_even s = s div 2" by (simp add: round_half_even_def)
    with 2 assms show ?thesis by presburger
  next
    case 3
    then have "round_half_even s = s div 2 + 1" by (simp add: round_half_even_def)
    with 3 assms show ?thesis by presburger
  qed
  then show "0 \<le> round_half_even s" and "round_half_even s \<le> 255"
    and "\<bar>2 * round_half_even s - s\<bar> \<le> 1" by simp_all
qed

lemma saturate_abs: "saturate_u8 \<bar>x\<bar> = min 255 \<bar>x\<bar>"
  by (simp add: saturate_u8_def min_def)

lemma sobel_sample_eq:
  "sobel_sample gx gy = round_half_even (min 255 \<bar>gx\<bar> + min 255 \<bar>gy\<bar>)"
proof -
  have r: "(of_int a :: real) * (1 / 2) + of_int b * (1 / 2) + 0 = of_int (a + b) / 2" for a b :: int
    by simp
  have rng: "0 \<le> min 255 \<bar>gx\<bar> + min 255 \<bar>gy\<bar>" "min 255 \<bar>gx\<bar> + min 255 \<bar>gy\<bar> \<le> 510"
    by (simp_all add: min_def)
  have "sobel_sample gx gy = saturate_u8 (round_half_even (min 255 \<bar>gx\<bar> + min 255 \<bar>gy\<bar>))"
    unfolding sobel_sample_def saturate_abs r cvRound_half by (rule refl)
  also have "\<dots> = round_half_even (min 255 \<bar>gx\<bar> + min 255 \<bar>gy\<bar>)"
    using round_half_even_bounds(1,2)[OF rng] by (simp add: saturate_u8_def)
  finally show ?thesis .
qed

lemma sobel_sample_bounds:
  "0 \<le> sobel_sample gx gy \<and> sobel_sample gx gy \<le> 255 \<and>
   \<bar>2 * sobel_sample gx gy - (min 255 \<bar>gx\<bar> + min 255 \<bar>gy\<bar>)\<bar> \<le> 1"
proof -
  have rng: "0 \<le> min 255 \<bar>gx\<bar> + min 255 \<bar>gy\<bar>" "min 255 \<bar>gx\<bar> + min 255 \<bar>gy\<bar> \<le> 510"
    by (simp_all add: min_def)
  from round_half_even_bounds[OF rng] show ?thesis unfolding sobel_sample_eq by simp
qed

lemma sobel_sample_exact:
  assumes "\<bar>gx\<bar> \<le> 255" and "\<bar>gy\<bar> \<le> 255" and "even (gx + gy)"
  shows "(of_int (sobel_sample gx gy) :: real) = 1 / 2 * of_int \<bar>gx\<bar> + 1 / 2 * of_int \<bar>gy\<bar>"
proof -
  have ev: "even (\<bar>gx\<bar> + \<bar>gy\<bar>)" using assms(3) by simp
  then obtain q where q: "\<bar>gx\<bar> + \<bar>gy\<bar> = 2 * q" unfolding dvd_def by blast
  have m: "min 255 \<bar>gx\<bar> + min 255 \<bar>gy\<bar> = 2 * q" using assms(1,2) q by (simp add: min_def)
  have "sobel_sample gx gy = q"
    unfolding sobel_sample_eq m by (simp add: round_half_even_def)
  moreover have "(1 / 2 * of_int \<bar>gx\<bar> + 1 / 2 * of_int \<bar>gy\<bar> :: real) = of_int (\<bar>gx\<bar> + \<bar>gy\<bar>) / 2"
    by simp
  ultimately show ?thesis unfolding q by simp
qed

lemma sobel_sample_odd:
  assumes "odd (gx + gy)"
  shows "(of_int (sobel_sample gx gy) :: real) \<noteq> 1 / 2 * of_int \<bar>gx\<bar> + 1 / 2 * of_int \<bar>gy\<bar>"
proof
  assume "(of_int (sobel_sample gx gy) :: real) = 1 / 2 * of_int \<bar>gx\<bar> + 1 / 2 * of_int \<bar>gy\<bar>"
  then have "(of_int (2 * sobel_sample gx gy) :: real) = of_int (\<bar>gx\<bar> + \<bar>gy\<bar>)" by simp
  then have "2 * sobel_sample gx gy = \<bar>gx\<bar> + \<bar>gy\<bar>" by (simp only: of_int_eq_iff)
  then have "even (\<bar>gx\<bar> + \<bar>gy\<bar>)" by (metis dvd_triv_left)
  with assms show False by simp
qed

lemma sobel_sample_large:
  assumes "510 < \<bar>gx\<bar> + \<bar>gy\<bar>"
  shows "(of_int (sobel_sample gx gy) :: real) < 1 / 2 * of_int \<bar>gx\<bar> + 1 / 2 * of_int \<bar>gy\<bar>"
proof -
  have "sobel_sample gx gy \<le> 255" using sobel_sample_bounds[of gx gy] by simp
  with assms have "2 * sobel_sample gx gy < \<bar>gx\<bar> + \<bar>gy\<bar>" by simp
  then have "(of_int (2 * sobel_sample gx gy) :: real) < of_int (\<bar>gx\<bar> + \<bar>gy\<bar>)"
    by (simp only: of_int_less_iff)
  then show ?thesis by simp
qed

lemma nth_concat_quads:
  "i < length xs \<Longrightarrow> j < 4 \<Longrightarrow>
     concat (map (\<lambda>v. [v, v, v, c]) xs) ! (4 * i + j) = [xs ! i, xs ! i, xs ! i, c] ! j"
proof (induction xs arbitrary: i)
  case Nil
  then show ?case by simp
next
  case (Cons x xs)
  show ?case
  proof (cases i)
    case 0
    from Cons.prems(2) have "j = 0 \<or> j = 1 \<or> j = 2 \<or> j = 3" by arith
    with 0 show ?thesis by auto
  next
    case (Suc n)
    then have "4 * i + j = 4 + (4 * n + j)" by simp
    then have "concat (map (\<lambda>v. [v, v, v, c]) (x # xs)) ! (4 * i + j)
             = concat (map (\<lambda>v. [v, v, v, c]) xs) ! (4 * n + j)"
      by (simp add: nth_Cons')
    with Cons.IH[of n] Cons.prems Suc show ?thesis by simp
  qed
qed

section \<open>The processor on the sample inputs\<close>

lemma valid_white: "valid_image white_pixel"
  by (simp add: valid_image_def white_pixel_def)


lemma valid_step: "valid_image step_edge"
  by (simp add: valid_image_def step_edge_def)


lemma canny_white:
  "canny cv_sample \<lparr>isReady = True\<rparr> white_pixel 50 50
     = Inr \<lparr>width = 1, height = 1, data = [0, 0, 0, 255]\<rparr>"
  by code_simp

lemma gaussianBlur_red:
  "gaussianBlur cv_sample \<lparr>isReady = True\<rparr> red_pixel 3 0 = Inr red_pixel"
  by code_simp


lemma step_gradX:
  "sobel_grad cv_sample step_edge (1, 0) 3
     = Inr \<lparr>rows = 1, cols = 4, depth = CV_16S, channels = 1, elems = [0, 764, 764, 0]\<rparr>"
  by code_simp

lemma step_gradY:
  "sobel_grad cv_sample step_edge (0, 1) 3
     = Inr \<lparr>rows = 1, cols = 4, depth = CV_16S, channels = 1, elems = [0, 0, 0, 0]\<rparr>"
  by code_simp

lemma step_sobel:
  "sobel cv_sample \<lparr>isReady = True\<rparr> step_edge 3
     = Inr \<lparr>width = 4, height = 1,
            data = [0, 0, 0, 255, 128, 128, 128, 255, 128, 128, 128, 255, 0, 0, 0, 255]\<rparr>"
  by code_simp

lemma roberts_red:
  "roberts cross_magnitude red_pixel 40 = Inr \<lparr>width = 1, height = 1, data = [0, 0, 0, 255]\<rparr>"
  by code_simp

lemma roberts_trace:
  "processImage ed_sample cv_sample \<lparr>isReady = True\<rparr> roberts_config red_pixel
     = ([CvGaussianBlur 3, TsGaussianBlur 1, TsRoberts 40],
        Inr \<lparr>width = 1, height = 1, data = [0, 0, 0, 255]\<rparr>)"
proof -
  have 1: "acceleratedBlur ed_sample cv_sample \<lparr>isReady = True\<rparr> roberts_config red_pixel
      = ([CvGaussianBlur 3], Inr red_pixel)"
    by (simp add: acceleratedBlur_def invoke_def roberts_config_def gaussianBlur_red)
  have 2: "referenceBlur ed_sample cv_sample \<lparr>isReady = True\<rparr> roberts_config red_pixel
      = ([TsGaussianBlur 1], Inr red_pixel)"
    by (simp add: referenceBlur_def invoke_def roberts_config_def ed_sample_def)
  have 3: "invoke ed_sample cv_sample \<lparr>isReady = True\<rparr> (TsRoberts 40) red_pixel
      = ([TsRoberts 40], Inr \<lparr>width = 1, height = 1, data = [0, 0, 0, 255]\<rparr>)"
    by (simp add: invoke_def ed_sample_def roberts_red)
  have m: "method_name roberts_config = Roberts" "threshold roberts_config = 40"
    "mode roberts_config = OpenCV"
    by (simp_all add: roberts_config_def)
  show ?thesis
    by (simp add: processImage_def ready_def acceleratedPath_def m 1 2 3 and_then_def)
qed

section \<open>Operators keep the image size\<close>

text \<open>
  Claim C2. On a valid input buffer every operator returns an RGBA buffer of the input's
  width and height. The five operators of the processor are taken on a ready processor,
  with a library that keeps matrix sizes, at apertures the library accepts: positive and
  odd for the blur, 1, 3, 5 or 7 for Sobel, positive, odd and at most 31 for the
  Laplacian. Roberts and Prewitt are the Reference operators as modelled from the spec,
  for any combination of the Roberts differences.
\<close>

theorem operators_keep_size:
  assumes "isReady p" and "cv_keeps_size cv" and "valid_image img"
    and "0 < kb" and "odd kb"
    and "ks \<in> {1, 3, 5, 7}"
    and "0 < kl" and "odd kl" and "kl \<le> 31"
  shows "same_size_rgba img (grayscale cv p img) \<and>
         same_size_rgba img (gaussianBlur cv p img kb sigma) \<and>
         same_size_rgba img (sobel cv p img ks) \<and>
         same_size_rgba img (canny cv p img lo hi) \<and>
         same_size_rgba img (laplacian cv p img kl) \<and>
         same_size_rgba img (roberts combine img t) \<and>
         same_size_rgba img (prewitt img t)"
  using grayscale_same_size[OF assms(1-3)] gaussianBlur_same_size[OF assms(1-5)]
    sobel_same_size[OF assms(1-3,6)] canny_same_size[OF assms(1-3)]
    laplacian_same_size[OF assms(1-3,7-9)] roberts_same_size[OF assms(3)]
    prewitt_same_size[OF assms(3)]
  by simp

theorem operators_keep_size_witness:
  "isReady \<lparr>isReady = True\<rparr> \<and> cv_keeps_size cv_sample \<and> valid_image step_edge \<and>
   (0::int) < 3 \<and> odd (3::int) \<and> (3::int) \<in> {1, 3, 5, 7} \<and> (3::int) \<le> 31 \<and>
   same_size_rgba step_edge (grayscale cv_sample \<lparr>isReady = True\<rparr> step_edge) \<and>
   same_size_rgba step_edge (gaussianBlur cv_sample \<lparr>isReady = True\<rparr> step_edge 3 0) \<and>
   same_size_rgba step_edge (sobel cv_sample \<lparr>isReady = True\<rparr> step_edge 3) \<and>
   same_size_rgba step_edge (canny cv_sample \<lparr>isReady = True\<rparr> step_edge 40 80) \<and>
   same_size_rgba step_edge (laplacian cv_sample \<lparr>isReady = True\<rparr> step_edge 3) \<and>
   same_size_rgba step_edge (roberts cross_magnitude step_edge 40) \<and>
   same_size_rgba step_edge (prewitt step_edge 40)"
proof -
  have r: "isReady \<lparr>isReady = True\<rparr>" by simp
  have k: "(0::int) < 3" "odd (3::int)" "(3::int) \<in> {1, 3, 5, 7}" "(3::int) \<le> 31" by simp_all
  from operators_keep_size[OF r cv_sample_keeps_size valid_step k(1,2,3,1,2,4),
      of 0 40 80 cross_magnitude 40]
  show ?thesis using r cv_sample_keeps_size valid_step by simp
qed

section \<open>Readiness\<close>

text \<open>
  Claim C3. While the processor's readiness flag is false, each of its five operations
  fails with the not-initialized error, and the driver, by its test of \<^verbatim>\<open>ready()\<close>,
  processes the frame on the Reference backend whatever the mode: the Reference blur if
  the blur amount is positive, then the \<^verbatim>\<open>EdgeDetector\<close> operator of the configured
  method (Sobel for grayscale) with the configured threshold, whose result is the frame's.
  No call of the frame goes to the processor.
\<close>

theorem not_ready_falls_back:
  assumes "\<not> isReady p"
  shows "canny cv p img lo hi = Inl OpenCVNotInitialized \<and>
     grayscale cv p img = Inl OpenCVNotInitialized \<and>
     sobel cv p img k = Inl OpenCVNotInitialized \<and>
     gaussianBlur cv p img k s = Inl OpenCVNotInitialized \<and>
     laplacian cv p img k = Inl OpenCVNotInitialized \<and>
     (\<forall>c \<in> set (fst (processImage ed cv p cfg img)). \<not> is_accelerated c) \<and>
     processImage ed cv p cfg img =
       reference_outcome ed (blurAmount cfg)
         (case method_name cfg of
            Sobel \<Rightarrow> TsSobel (threshold cfg) | Canny \<Rightarrow> TsCanny (threshold cfg)
          | Roberts \<Rightarrow> TsRoberts (threshold cfg) | Prewitt \<Rightarrow> TsPrewitt (threshold cfg)
          | Laplacian \<Rightarrow> TsLaplacian (threshold cfg) | Grayscale \<Rightarrow> TsSobel (threshold cfg))
         (\<lambda>im. case method_name cfg of
            Sobel \<Rightarrow> ed_sobel ed im (threshold cfg) | Canny \<Rightarrow> ed_canny ed im (threshold cfg)
          | Roberts \<Rightarrow> ed_roberts ed im (threshold cfg)
          | Prewitt \<Rightarrow> ed_prewitt ed im (threshold cfg)
          | Laplacian \<Rightarrow> ed_laplacian ed im (threshold cfg)
          | Grayscale \<Rightarrow> ed_sobel ed im (threshold cfg))
         img"
proof -
  have ops: "canny cv p img lo hi = Inl OpenCVNotInitialized"
    "grayscale cv p img = Inl OpenCVNotInitialized"
    "sobel cv p img k = Inl OpenCVNotInitialized"
    "gaussianBlur cv p img k s = Inl OpenCVNotInitialized"
    "laplacian cv p img k = Inl OpenCVNotInitialized"
    using assms by (simp_all add: canny_def grayscale_def sobel_def gaussianBlur_def laplacian_def)
  have path: "processImage ed cv p cfg img = referencePath ed cv p cfg img"
    using assms by (simp add: processImage_def ready_def)
  have calls: "\<forall>c \<in> set (fst (processImage ed cv p cfg img)). \<not> is_accelerated c"
    unfolding path using reference_no_accel[of _ ed cv p cfg img] by blast
  from ops calls path referencePath_outcome[of ed cv p cfg img] show ?thesis by simp
qed

theorem not_ready_falls_back_witness:
  "\<not> isReady \<lparr>isReady = False\<rparr> \<and>
   canny cv_sample \<lparr>isReady = False\<rparr> step_edge 40 80 = Inl OpenCVNotInitialized \<and>
   processImage ed_sample cv_sample \<lparr>isReady = False\<rparr> sample_config step_edge
     = ([TsGaussianBlur 1, TsSobel 40], Inr step_edge) \<and>
   processImage ed_sample cv_sample \<lparr>isReady = False\<rparr> (sample_config\<lparr>method_name := Canny\<rparr>)
       step_edge
     = ([TsGaussianBlur 1, TsCanny 40], Inr step_edge)"
proof -
  have r: "\<not> isReady \<lparr>isReady = False\<rparr>" by simp
  from not_ready_falls_back[OF r, of cv_sample step_edge 40 80 3 0 ed_sample sample_config]
    not_ready_falls_back[OF r, of cv_sample step_edge 40 80 3 0 ed_sample
      "sample_config\<lparr>method_name := Canny\<rparr>"]
  show ?thesis
    by (simp add: reference_outcome_def sample_config_def ed_sample_def)
qed

section \<open>Roberts and Prewitt run on the Reference operator\<close>

text \<open>
  Claim C4, as amended. When the configured method is roberts or prewitt, the edge
  operator is \<^verbatim>\<open>EdgeDetector.roberts\<close> or \<^verbatim>\<open>EdgeDetector.prewitt\<close> with the configured
  threshold, whatever the mode and the readiness, and the only processor call a frame can
  make is the blur. Outside OpenCV mode on a ready processor, and with blur amount 0 in
  any mode, the frame is processed on the Reference backend alone. In OpenCV mode on a
  ready processor with a positive blur amount the frame first goes through the
  processor's \<^verbatim>\<open>gaussianBlur\<close> with aperture \<open>2 * blurAmount + 1\<close>: its error ends the
  frame, and its result, not the frame itself, is what the Reference backend processes.
\<close>

theorem roberts_prewitt_operator_on_reference:
  assumes "method_name cfg = Roberts \<or> method_name cfg = Prewitt"
  shows
    "(\<not> (mode cfg = OpenCV \<and> ready p) \<or> blurAmount cfg \<le> 0 \<longrightarrow>
        processImage ed cv p cfg img =
          reference_outcome ed (blurAmount cfg)
            (if method_name cfg = Roberts then TsRoberts (threshold cfg)
             else TsPrewitt (threshold cfg))
            (\<lambda>im. if method_name cfg = Roberts then ed_roberts ed im (threshold cfg)
                   else ed_prewitt ed im (threshold cfg))
            img) \<and>
     (mode cfg = OpenCV \<and> ready p \<and> 0 < blurAmount cfg \<longrightarrow>
        (\<forall>e. gaussianBlur cv p img (blurAmount cfg * 2 + 1) 0 = Inl e \<longrightarrow>
           processImage ed cv p cfg img = ([CvGaussianBlur (blurAmount cfg * 2 + 1)], Inl e)) \<and>
        (\<forall>blurred. gaussianBlur cv p img (blurAmount cfg * 2 + 1) 0 = Inr blurred \<longrightarrow>
           processImage ed cv p cfg img =
             (CvGaussianBlur (blurAmount cfg * 2 + 1) #
                fst (reference_outcome ed (blurAmount cfg)
                       (if method_name cfg = Roberts then TsRoberts (threshold cfg)
                        else TsPrewitt (threshold cfg))
                       (\<lambda>im. if method_name cfg = Roberts then ed_roberts ed im (threshold cfg)
                              else ed_prewitt ed im (threshold cfg))
                       blurred),
              snd (reference_outcome ed (blurAmount cfg)
                     (if method_name cfg = Roberts then TsRoberts (threshold cfg)
                      else TsPrewitt (threshold cfg))
                     (\<lambda>im. if method_name cfg = Roberts then ed_roberts ed im (threshold cfg)
                            else ed_prewitt ed im (threshold cfg))
                     blurred)))) \<and>
     (\<forall>c \<in> set (fst (processImage ed cv p cfg img)).
        is_accelerated c \<longrightarrow> c = CvGaussianBlur (blurAmount cfg * 2 + 1))"
proof -
  let ?c = "if method_name cfg = Roberts then TsRoberts (threshold cfg)
            else TsPrewitt (threshold cfg)"
  let ?op = "\<lambda>im. if method_name cfg = Roberts then ed_roberts ed im (threshold cfg)
                  else ed_prewitt ed im (threshold cfg)"
  have na: "\<not> is_accelerated ?c" by simp
  have ref_calls: "\<not> is_accelerated c"
    if "c \<in> set (fst (reference_outcome ed (blurAmount cfg) ?c ?op im))" for c im
    using that na
    by (cases "ed_gaussianBlur ed im (blurAmount cfg)")
       (auto simp: reference_outcome_def split: if_splits)
  have acc: "acceleratedPath ed cv p cfg img =
      and_then (acceleratedBlur ed cv p cfg img) (reference_outcome ed (blurAmount cfg) ?c ?op)"
    using roberts_prewitt_accelerated[OF assms, of ed cv p img] by simp
  have ref: "referencePath ed cv p cfg img = reference_outcome ed (blurAmount cfg) ?c ?op img"
    by (rule roberts_prewitt_reference[OF assms])
  have 1: "processImage ed cv p cfg img = reference_outcome ed (blurAmount cfg) ?c ?op img"
    if "\<not> (mode cfg = OpenCV \<and> ready p) \<or> blurAmount cfg \<le> 0"
  proof (cases "mode cfg = OpenCV \<and> ready p")
    case True
    with that have b: "blurAmount cfg \<le> 0" by simp
    from True have "processImage ed cv p cfg img = acceleratedPath ed cv p cfg img"
      by (simp add: processImage_def)
    also have "\<dots> = reference_outcome ed (blurAmount cfg) ?c ?op img"
      unfolding acc using b by (simp add: acceleratedBlur_def and_then_def)
    finally show ?thesis .
  next
    case False
    then have "processImage ed cv p cfg img = referencePath ed cv p cfg img"
      by (auto simp: processImage_def)
    with ref show ?thesis by simp
  qed
  have 2: "processImage ed cv p cfg img = ([CvGaussianBlur (blurAmount cfg * 2 + 1)], Inl e)"
    if "mode cfg = OpenCV \<and> ready p \<and> 0 < blurAmount cfg"
      and "gaussianBlur cv p img (blurAmount cfg * 2 + 1) 0 = Inl e" for e
  proof -
    from that(1) have "processImage ed cv p cfg img = acceleratedPath ed cv p cfg img"
      by (simp add: processImage_def)
    then show ?thesis unfolding acc using that
      by (simp add: acceleratedBlur_def and_then_def invoke_def)
  qed
  have 3: "processImage ed cv p cfg img =
      (CvGaussianBlur (blurAmount cfg * 2 + 1) #
         fst (reference_outcome ed (blurAmount cfg) ?c ?op blurred),
       snd (reference_outcome ed (blurAmount cfg) ?c ?op blurred))"
    if "mode cfg = OpenCV \<and> ready p \<and> 0 < blurAmount cfg"
      and "gaussianBlur cv p img (blurAmount cfg * 2 + 1) 0 = Inr blurred" for blurred
  proof -
    from that(1) have "processImage ed cv p cfg img = acceleratedPath ed cv p cfg img"
      by (simp add: processImage_def)
    then show ?thesis unfolding acc using that
      by (simp add: acceleratedBlur_def and_then_def invoke_def)
  qed
  have 4: "c = CvGaussianBlur (blurAmount cfg * 2 + 1)"
    if c: "c \<in> set (fst (processImage ed cv p cfg img))" and a: "is_accelerated c" for c
  proof (cases "mode cfg = OpenCV \<and> ready p \<and> 0 < blurAmount cfg")
    case False
    then have "\<not> (mode cfg = OpenCV \<and> ready p) \<or> blurAmount cfg \<le> 0" by auto
    from 1[OF this] c a ref_calls[of c img] show ?thesis by simp
  next
    case True
    show ?thesis
    proof (cases "gaussianBlur cv p img (blurAmount cfg * 2 + 1) 0")
      case (Inl e)
      from 2[OF True Inl] c show ?thesis by simp
    next
      case (Inr blurred)
      from 3[OF True Inr] c a ref_calls[of c blurred] show ?thesis by auto
    qed
  qed
  from 1 2 3 4 show ?thesis by blast
qed

theorem roberts_prewitt_operator_on_reference_witness:
  "(method_name roberts_config = Roberts \<or> method_name roberts_config = Prewitt) \<and>
   mode roberts_config = OpenCV \<and> ready \<lparr>isReady = True\<rparr> \<and> 0 < blurAmount roberts_config \<and>
   gaussianBlur cv_sample \<lparr>isReady = True\<rparr> red_pixel (blurAmount roberts_config * 2 + 1) 0
     = Inr red_pixel \<and>
   processImage ed_sample cv_sample \<lparr>isReady = True\<rparr> roberts_config red_pixel
     = ([CvGaussianBlur 3, TsGaussianBlur 1, TsRoberts 40],
        roberts cross_magnitude red_pixel 40) \<and>
   processImage ed_sample cv_sample \<lparr>isReady = False\<rparr> roberts_config red_pixel
     = ([TsGaussianBlur 1, TsRoberts 40], roberts cross_magnitude red_pixel 40)"
proof -
  let ?c = "if method_name roberts_config = Roberts then TsRoberts (threshold roberts_config)
            else TsPrewitt (threshold roberts_config)"
  let ?op = "\<lambda>im. if method_name roberts_config = Roberts
                  then ed_roberts ed_sample im (threshold roberts_config)
                  else ed_prewitt ed_sample im (threshold roberts_config)"
  have m: "method_name roberts_config = Roberts \<or> method_name roberts_config = Prewitt"
    by (simp add: roberts_config_def)
  have h: "mode roberts_config = OpenCV \<and> ready \<lparr>isReady = True\<rparr> \<and> 0 < blurAmount roberts_config"
    by (simp add: roberts_config_def ready_def)
  have b: "gaussianBlur cv_sample \<lparr>isReady = True\<rparr> red_pixel (blurAmount roberts_config * 2 + 1) 0
     = Inr red_pixel"
    using gaussianBlur_red by (simp add: roberts_config_def)
  have n: "\<not> (mode roberts_config = OpenCV \<and> ready \<lparr>isReady = False\<rparr>) \<or> blurAmount roberts_config \<le> 0"
    by (simp add: ready_def)
  have ro: "reference_outcome ed_sample (blurAmount roberts_config) ?c ?op red_pixel
      = ([TsGaussianBlur 1, TsRoberts 40], roberts cross_magnitude red_pixel 40)"
    by (simp add: reference_outcome_def roberts_config_def ed_sample_def)
  have k: "blurAmount roberts_config * 2 + 1 = 3" by (simp add: roberts_config_def)
  note t = roberts_prewitt_operator_on_reference[OF m, of "\<lparr>isReady = True\<rparr>" ed_sample cv_sample red_pixel]
  note f = roberts_prewitt_operator_on_reference[OF m, of "\<lparr>isReady = False\<rparr>" ed_sample cv_sample red_pixel]
  from t h b
  have "processImage ed_sample cv_sample \<lparr>isReady = True\<rparr> roberts_config red_pixel
     = (CvGaussianBlur (blurAmount roberts_config * 2 + 1) #
          fst (reference_outcome ed_sample (blurAmount roberts_config) ?c ?op red_pixel),
        snd (reference_outcome ed_sample (blurAmount roberts_config) ?c ?op red_pixel))"
    by blast
  then have 1: "processImage ed_sample cv_sample \<lparr>isReady = True\<rparr> roberts_config red_pixel
     = ([CvGaussianBlur 3, TsGaussianBlur 1, TsRoberts 40], roberts cross_magnitude red_pixel 40)"
    unfolding ro k by simp
  from f n
  have "processImage ed_sample cv_sample \<lparr>isReady = False\<rparr> roberts_config red_pixel
     = reference_outcome ed_sample (blurAmount roberts_config) ?c ?op red_pixel"
    by blast
  then have 2: "processImage ed_sample cv_sample \<lparr>isReady = False\<rparr> roberts_config red_pixel
     = ([TsGaussianBlur 1, TsRoberts 40], roberts cross_magnitude red_pixel 40)"
    unfolding ro .
  from m h b 1 2 show ?thesis by blast
qed

theorem roberts_accelerated_blur_counterexample:
  "method_name roberts_config = Roberts \<and>
   fst (processImage ed_sample cv_sample \<lparr>isReady = True\<rparr> roberts_config red_pixel)
     = [CvGaussianBlur 3, TsGaussianBlur 1, TsRoberts 40] \<and>
   is_accelerated (CvGaussianBlur 3)"
proof -
  have m: "method_name roberts_config = Roberts" by (simp add: roberts_config_def)
  from roberts_trace m show ?thesis by simp
qed

section \<open>Canny thresholds\<close>

lemma toImageData_not_thresholds: "toImageData m \<noteq> Inl InvalidThresholds \<and> toImageData m \<noteq> Inl OpenCVNotInitialized"
  by (simp add: toImageData_def new_ImageData_def)

text \<open>
  Claim C5, as amended. The processor's \<^verbatim>\<open>canny\<close> never validates its thresholds and
  never raises \<open>InvalidThresholds\<close>: it raises the not-initialized error exactly when the
  processor is not ready, and otherwise hands both thresholds, unchanged and in the order
  given, to the library's Canny; on a ready processor with a size-keeping library and a
  valid image it returns an image for every pair of thresholds, \<open>high \<le> low\<close> included.
\<close>

theorem canny_no_threshold_check:
  "canny cv p img lo hi \<noteq> Inl InvalidThresholds \<and>
   (canny cv p img lo hi = Inl OpenCVNotInitialized \<longleftrightarrow> \<not> isReady p) \<and>
   (isReady p \<longrightarrow>
      canny cv p img lo hi =
        toImageData (gray2rgba (cv_Canny cv (cv_RGBA2GRAY cv (matFromImageData img)) lo hi))) \<and>
   (isReady p \<and> cv_keeps_size cv \<and> valid_image img \<longrightarrow>
      (\<exists>out. canny cv p img lo hi = Inr out))"
proof -
  have 1: "canny cv p img lo hi \<noteq> Inl InvalidThresholds"
    using toImageData_not_thresholds by (simp add: canny_def Let_def)
  have 2: "canny cv p img lo hi = Inl OpenCVNotInitialized \<longleftrightarrow> \<not> isReady p"
    using toImageData_not_thresholds by (simp add: canny_def Let_def)
  have 3: "isReady p \<longrightarrow>
      canny cv p img lo hi =
        toImageData (gray2rgba (cv_Canny cv (cv_RGBA2GRAY cv (matFromImageData img)) lo hi))"
    by (simp add: canny_def Let_def cvtColor_def)
  have 4: "\<exists>out. canny cv p img lo hi = Inr out"
    if "isReady p" "cv_keeps_size cv" "valid_image img"
    using canny_same_size[OF that, of lo hi] by (cases "canny cv p img lo hi") (simp_all add: same_size_rgba_def)
  from 1 2 3 4 show ?thesis by blast
qed

theorem canny_no_threshold_check_witness:
  "isReady \<lparr>isReady = True\<rparr> \<and> cv_keeps_size cv_sample \<and> valid_image white_pixel \<and>
   canny cv_sample \<lparr>isReady = True\<rparr> white_pixel 80 40 \<noteq> Inl InvalidThresholds \<and>
   (\<exists>out. canny cv_sample \<lparr>isReady = True\<rparr> white_pixel 80 40 = Inr out)"
proof -
  have r: "isReady \<lparr>isReady = True\<rparr>" by simp
  from canny_no_threshold_check[of cv_sample "\<lparr>isReady = True\<rparr>" white_pixel 80 40] r
    cv_sample_keeps_size valid_white
  show ?thesis by blast
qed

theorem canny_equal_thresholds_counterexample:
  "(50::int) \<le> 50 \<and>
   canny cv_sample \<lparr>isReady = True\<rparr> white_pixel 50 50
     = Inr \<lparr>width = 1, height = 1, data = [0, 0, 0, 255]\<rparr> \<and>
   canny cv_sample \<lparr>isReady = True\<rparr> white_pixel 50 50 \<noteq> Inl InvalidThresholds"
  by (simp add: canny_white)

section \<open>The Sobel magnitude\<close>

lemma sobel_data:
  assumes "isReady p" and "valid_image img"
    and "sobel_grad cv img (1, 0) k = Inr gradX"
    and "sized_like gradX (matFromImageData img) 1 CV_16S"
    and "sobel_grad cv img (0, 1) k = Inr gradY"
    and "sized_like gradY (matFromImageData img) 1 CV_16S"
  shows "sobel cv p img k = Inr \<lparr>width = width img, height = height img,
           data = map word_of_int (concat (map (\<lambda>v. [v, v, v, 255])
                    (map (\<lambda>(x, y). sobel_sample x y) (zip (elems gradX) (elems gradY)))))\<rparr>"
proof -
  have "sobel cv p img k = toImageData (gray2rgba (addWeighted (convertScaleAbs gradX) (1 / 2)
            (convertScaleAbs gradY) (1 / 2) 0))"
    by (rule sobel_unfold[OF assms(1,3,5)])
  also have "\<dots> = Inr \<lparr>width = width img, height = height img,
       data = map word_of_int (elems (gray2rgba (addWeighted (convertScaleAbs gradX) (1 / 2)
            (convertScaleAbs gradY) (1 / 2) 0)))\<rparr>"
    by (rule toImageData_sized[OF gray2rgba_sized[OF addWeighted_sized[OF
          convertScaleAbs_sized[OF assms(4)] convertScaleAbs_sized[OF assms(6)]]] assms(2)])
  also have "elems (gray2rgba (addWeighted (convertScaleAbs gradX) (1 / 2)
            (convertScaleAbs gradY) (1 / 2) 0))
      = concat (map (\<lambda>v. [v, v, v, 255])
                    (map (\<lambda>(x, y). sobel_sample x y) (zip (elems gradX) (elems gradY))))"
    by (simp add: gray2rgba_def addWeighted_def convertScaleAbs_def zip_map_map sobel_sample_def
        case_prod_unfold comp_def)
  finally show ?thesis .
qed

text \<open>
  Claim C6, as amended. On a ready processor with a size-keeping library and a Sobel
  aperture the library accepts, every pixel of the Sobel output carries in R, G and B the
  sample \<open>m\<close> that \<^verbatim>\<open>addWeighted\<close> makes of the two gradient samples \<open>gx\<close>, \<open>gy\<close> at that
  pixel, with alpha 255: the weighted sum \<open>0.5*min(|gx|,255) + 0.5*min(|gy|,255)\<close> rounded
  to an integer (so \<open>2*m\<close> is within 1 of \<open>min(|gx|,255) + min(|gy|,255)\<close>), never a
  Euclidean norm. It is \<open>0.5*|gx| + 0.5*|gy|\<close> whenever both absolute gradients are at most
  255 and their sum is even; it is not whenever the sum is odd, and it is smaller whenever
  \<open>|gx| + |gy|\<close> exceeds 510.
\<close>

theorem sobel_weighted_sum:
  assumes "isReady p" and "cv_keeps_size cv" and "valid_image img"
    and "k \<in> {1, 3, 5, 7}" and "i < width img * height img"
  shows "\<exists>out gradX gradY.
     sobel_grad cv img (1, 0) k = Inr gradX \<and> sobel_grad cv img (0, 1) k = Inr gradY \<and>
     sobel cv p img k = Inr out \<and>
     (let gx = elems gradX ! i; gy = elems gradY ! i; m = sobel_sample gx gy
      in data out ! (4 * i) = word_of_int m \<and> data out ! (4 * i + 1) = word_of_int m \<and>
         data out ! (4 * i + 2) = word_of_int m \<and> data out ! (4 * i + 3) = 255 \<and>
         0 \<le> m \<and> m \<le> 255 \<and> \<bar>2 * m - (min 255 \<bar>gx\<bar> + min 255 \<bar>gy\<bar>)\<bar> \<le> 1 \<and>
         (\<bar>gx\<bar> \<le> 255 \<and> \<bar>gy\<bar> \<le> 255 \<and> even (gx + gy) \<longrightarrow>
            (of_int m :: real) = 1 / 2 * of_int \<bar>gx\<bar> + 1 / 2 * of_int \<bar>gy\<bar>) \<and>
         (odd (gx + gy) \<longrightarrow>
            (of_int m :: real) \<noteq> 1 / 2 * of_int \<bar>gx\<bar> + 1 / 2 * of_int \<bar>gy\<bar>) \<and>
         (510 < \<bar>gx\<bar> + \<bar>gy\<bar> \<longrightarrow>
            (of_int m :: real) < 1 / 2 * of_int \<bar>gx\<bar> + 1 / 2 * of_int \<bar>gy\<bar>))"
proof -
  obtain gradX where gX: "sobel_grad cv img (1, 0) k = Inr gradX"
    "sized_like gradX (matFromImageData img) 1 CV_16S"
    by (rule sobel_grad_sized[OF assms(2,3,4), of "(1, 0)"]) simp
  obtain gradY where gY: "sobel_grad cv img (0, 1) k = Inr gradY"
    "sized_like gradY (matFromImageData img) 1 CV_16S"
    by (rule sobel_grad_sized[OF assms(2,3,4), of "(0, 1)"]) simp
  define gx where "gx = elems gradX"
  define gy where "gy = elems gradY"
  define ms where "ms = map (\<lambda>(x, y). sobel_sample x y) (zip gx gy)"
  define q where "q = concat (map (\<lambda>v. [v, v, v, 255]) ms)"
  have lx: "length gx = width img * height img"
    using gX(2) by (simp add: gx_def sized_like_def matFromImageData_def mult.commute)
  have ly: "length gy = width img * height img"
    using gY(2) by (simp add: gy_def sized_like_def matFromImageData_def mult.commute)
  have i: "i < length ms" using assms(5) lx ly by (simp add: ms_def)
  have mi: "ms ! i = sobel_sample (gx ! i) (gy ! i)"
    using assms(5) lx ly by (simp add: ms_def)
  have lq: "length q = 4 * length ms" unfolding q_def by (rule length_concat_quads)
  have w: "map word_of_int q ! (4 * i + j) = (word_of_int ([ms ! i, ms ! i, ms ! i, 255] ! j) :: 8 word)"
    if "j < 4" for j
  proof -
    have "4 * i + j < length q" using lq i that by simp
    then have "map word_of_int q ! (4 * i + j) = (word_of_int (q ! (4 * i + j)) :: 8 word)"
      by (rule nth_map)
    also have "q ! (4 * i + j) = [ms ! i, ms ! i, ms ! i, 255] ! j"
      unfolding q_def by (rule nth_concat_quads[OF i that])
    finally show ?thesis .
  qed
  have w0: "map word_of_int q ! (4 * i) = (word_of_int (ms ! i) :: 8 word)"
    using w[of 0] by simp
  have w1: "map word_of_int q ! (4 * i + 1) = (word_of_int (ms ! i) :: 8 word)"
    using w[of 1] by simp
  have w2: "map word_of_int q ! (4 * i + 2) = (word_of_int (ms ! i) :: 8 word)"
    using w[of 2] by simp
  have w3: "map word_of_int q ! (4 * i + 3) = (255 :: 8 word)"
    using w[of 3] by simp
  have out: "sobel cv p img k = Inr \<lparr>width = width img, height = height img, data = map word_of_int q\<rparr>"
    unfolding q_def ms_def gx_def gy_def
    by (rule sobel_data[OF assms(1,3) gX gY])
  have props: "let a = gx ! i; b = gy ! i; m = sobel_sample a b
      in map word_of_int q ! (4 * i) = (word_of_int m :: 8 word) \<and>
         map word_of_int q ! (4 * i + 1) = (word_of_int m :: 8 word) \<and>
         map word_of_int q ! (4 * i + 2) = (word_of_int m :: 8 word) \<and>
         map word_of_int q ! (4 * i + 3) = (255 :: 8 word) \<and>
         0 \<le> m \<and> m \<le> 255 \<and> \<bar>2 * m - (min 255 \<bar>a\<bar> + min 255 \<bar>b\<bar>)\<bar> \<le> 1 \<and>
         (\<bar>a\<bar> \<le> 255 \<and> \<bar>b\<bar> \<le> 255 \<and> even (a + b) \<longrightarrow>
            (of_int m :: real) = 1 / 2 * of_int \<bar>a\<bar> + 1 / 2 * of_int \<bar>b\<bar>) \<and>
         (odd (a + b) \<longrightarrow>
            (of_int m :: real) \<noteq> 1 / 2 * of_int \<bar>a\<bar> + 1 / 2 * of_int \<bar>b\<bar>) \<and>
         (510 < \<bar>a\<bar> + \<bar>b\<bar> \<longrightarrow>
            (of_int m :: real) < 1 / 2 * of_int \<bar>a\<bar> + 1 / 2 * of_int \<bar>b\<bar>)"
    unfolding Let_def
    using w0 w1 w2 w3 sobel_sample_bounds[of "gx ! i" "gy ! i"]
      sobel_sample_exact[of "gx ! i" "gy ! i"] sobel_sample_odd[of "gx ! i" "gy ! i"]
      sobel_sample_large[of "gx ! i" "gy ! i"]
    unfolding mi by blast
  show ?thesis
    apply (rule exI[of _ "\<lparr>width = width img, height = height img, data = map word_of_int q\<rparr>"])
    apply (rule exI[of _ gradX])
    apply (rule exI[of _ gradY])
    using gX(1) gY(1) out props unfolding gx_def gy_def by simp
qed

theorem sobel_weighted_sum_witness:
  "isReady \<lparr>isReady = True\<rparr> \<and> cv_keeps_size cv_sample \<and> valid_image step_edge \<and>
   (3::int) \<in> {1, 3, 5, 7} \<and> (1::nat) < width step_edge * height step_edge \<and>
   (\<exists>out gradX gradY.
      sobel_grad cv_sample step_edge (1, 0) 3 = Inr gradX \<and> elems gradX ! 1 = 764 \<and>
      sobel_grad cv_sample step_edge (0, 1) 3 = Inr gradY \<and> elems gradY ! 1 = 0 \<and>
      sobel cv_sample \<lparr>isReady = True\<rparr> step_edge 3 = Inr out \<and>
      data out ! (4 * 1) = word_of_int (sobel_sample 764 0) \<and>
      \<bar>2 * sobel_sample 764 0 - (min 255 \<bar>764\<bar> + min 255 \<bar>0\<bar>)\<bar> \<le> 1 \<and>
      (of_int (sobel_sample 764 0) :: real) < 1 / 2 * of_int \<bar>764\<bar> + 1 / 2 * of_int \<bar>0\<bar>)"
proof -
  have r: "isReady \<lparr>isReady = True\<rparr>" by simp
  have k: "(3::int) \<in> {1, 3, 5, 7}" by simp
  have i: "(1::nat) < width step_edge * height step_edge" by (simp add: step_edge_def)
  from sobel_weighted_sum[OF r cv_sample_keeps_size valid_step k i]
  obtain out gradX gradY where o:
    "sobel_grad cv_sample step_edge (1, 0) 3 = Inr gradX"
    "sobel_grad cv_sample step_edge (0, 1) 3 = Inr gradY"
    "sobel cv_sample \<lparr>isReady = True\<rparr> step_edge 3 = Inr out"
    "let gx = elems gradX ! 1; gy = elems gradY ! 1; m = sobel_sample gx gy
      in data out ! (4 * 1) = word_of_int m \<and> data out ! (4 * 1 + 1) = word_of_int m \<and>
         data out ! (4 * 1 + 2) = word_of_int m \<and> data out ! (4 * 1 + 3) = 255 \<and>
         0 \<le> m \<and> m \<le> 255 \<and> \<bar>2 * m - (min 255 \<bar>gx\<bar> + min 255 \<bar>gy\<bar>)\<bar> \<le> 1 \<and>
         (\<bar>gx\<bar> \<le> 255 \<and> \<bar>gy\<bar> \<le> 255 \<and> even (gx + gy) \<longrightarrow>
            (of_int m :: real) = 1 / 2 * of_int \<bar>gx\<bar> + 1 / 2 * of_int \<bar>gy\<bar>) \<and>
         (odd (gx + gy) \<longrightarrow>
            (of_int m :: real) \<noteq> 1 / 2 * of_int \<bar>gx\<bar> + 1 / 2 * of_int \<bar>gy\<bar>) \<and>
         (510 < \<bar>gx\<bar> + \<bar>gy\<bar> \<longrightarrow>
            (of_int m :: real) < 1 / 2 * of_int \<bar>gx\<bar> + 1 / 2 * of_int \<bar>gy\<bar>)"
    by blast
  have gx: "elems gradX ! 1 = 764" using o(1) unfolding step_gradX by auto
  have gy: "elems gradY ! 1 = 0" using o(2) unfolding step_gradY by auto
  from o(4) have p: "data out ! (4 * 1) = word_of_int (sobel_sample 764 0)"
    "\<bar>2 * sobel_sample 764 0 - (min 255 \<bar>764\<bar> + min 255 \<bar>0\<bar>)\<bar> \<le> 1"
    "(of_int (sobel_sample 764 0) :: real) < 1 / 2 * of_int \<bar>764\<bar> + 1 / 2 * of_int \<bar>0\<bar>"
    unfolding Let_def gx gy by simp_all
  from r cv_sample_keeps_size valid_step k i o(1,2,3) gx gy p show ?thesis by blast
qed

theorem sobel_saturation_counterexample:
  "sobel cv_sample \<lparr>isReady = True\<rparr> step_edge 3
     = Inr \<lparr>width = 4, height = 1,
            data = [0, 0, 0, 255, 128, 128, 128, 255, 128, 128, 128, 255, 0, 0, 0, 255]\<rparr> \<and>
   sobel_grad cv_sample step_edge (1, 0) 3
     = Inr \<lparr>rows = 1, cols = 4, depth = CV_16S, channels = 1, elems = [0, 764, 764, 0]\<rparr> \<and>
   sobel_grad cv_sample step_edge (0, 1) 3
     = Inr \<lparr>rows = 1, cols = 4, depth = CV_16S, channels = 1, elems = [0, 0, 0, 0]\<rparr> \<and>
   (128 :: real) \<noteq> 1 / 2 * \<bar>764\<bar> + 1 / 2 * \<bar>0\<bar>"
proof -
  have "(128 :: real) \<noteq> 1 / 2 * \<bar>764\<bar> + 1 / 2 * \<bar>0\<bar>" by simp
  with step_sobel step_gradX step_gradY show ?thesis by blast
qed

section \<open>Blur radius zero\<close>






section \<open>Errors inside processFrame\<close>

text \<open>
  Claim C8, as amended. \<^verbatim>\<open>processFrame\<close> never passes an error to its caller: it always
  returns. While processing is on, an error raised for the frame is appended unmodified
  to the console log, nothing is rendered for that frame, and the next frame is scheduled
  just as after a frame that succeeded.
\<close>

theorem processFrame_catches:
  "\<exists>app'. processFrame ed cv rid frame app = Inr app' \<and>
     (isProcessing (state app) \<longrightarrow>
        state app' = \<lparr>isProcessing = True, animationId = Some rid\<rparr> \<and>
        (\<forall>e. snd (try_block ed cv frame app) = Inl e \<longrightarrow>
           console app' = console app @ [e] \<and> rendered app' = rendered app) \<and>
        (\<forall>result. snd (try_block ed cv frame app) = Inr result \<longrightarrow>
           console app' = console app \<and> rendered app' = rendered app @ [result]))"
  by (cases "snd (try_block ed cv frame app)") (simp_all add: processFrame_def Let_def)

theorem processFrame_catches_witness:
  "isProcessing (state typescript_app) \<and>
   snd (try_block ed_sample cv_sample (Inr red_pixel) typescript_app) = Inr red_pixel \<and>
   snd (try_block ed_raising cv_sample (Inr red_pixel) typescript_app) = Inl InvalidDimensions \<and>
   (\<exists>app'. processFrame ed_raising cv_sample 7 (Inr red_pixel) typescript_app = Inr app' \<and>
      state app' = \<lparr>isProcessing = True, animationId = Some 7\<rparr> \<and>
      console app' = [InvalidDimensions] \<and> rendered app' = []) \<and>
   (\<exists>app'. processFrame ed_sample cv_sample 7 (Inr red_pixel) typescript_app = Inr app' \<and>
      state app' = \<lparr>isProcessing = True, animationId = Some 7\<rparr> \<and>
      console app' = [] \<and> rendered app' = [red_pixel])"
proof -
  have p: "isProcessing (state typescript_app)"
    by (simp add: typescript_app_def sample_app_def)
  have c: "console typescript_app = []" "rendered typescript_app = []"
    by (simp_all add: typescript_app_def sample_app_def)
  have ok: "snd (try_block ed_sample cv_sample (Inr red_pixel) typescript_app) = Inr red_pixel"
    by (simp add: try_block_def path_defs typescript_app_def sample_app_def ed_sample_def)
  have bad: "snd (try_block ed_raising cv_sample (Inr red_pixel) typescript_app) = Inl InvalidDimensions"
    by (simp add: try_block_def path_defs typescript_app_def sample_app_def ed_sample_def ed_raising_def)
  from processFrame_catches[of ed_raising cv_sample 7 "Inr red_pixel" typescript_app]
    processFrame_catches[of ed_sample cv_sample 7 "Inr red_pixel" typescript_app]
  show ?thesis unfolding ok bad using p c by auto
qed

theorem processFrame_swallows_counterexample:
  "snd (try_block ed_raising cv_sample (Inr red_pixel) typescript_app) = Inl InvalidDimensions \<and>
   processFrame ed_raising cv_sample 7 (Inr red_pixel) typescript_app \<noteq> Inl InvalidDimensions \<and>
   processFrame ed_raising cv_sample 7 (Inr red_pixel) typescript_app =
     Inr (typescript_app\<lparr>calls := [TsSobel 40], console := [InvalidDimensions],
                          state := \<lparr>isProcessing = True, animationId = Some 7\<rparr>\<rparr>)"
  by (simp add: processFrame_def try_block_def path_defs typescript_app_def sample_app_def
      ed_sample_def ed_raising_def Let_def)

section \<open>The thresholds the driver passes to Canny\<close>




section \<open>Grayscale on the Reference backend\<close>

lemma grayscale_as_sobel:
  "method_name cfg = Grayscale \<Longrightarrow>
     referencePath ed cv p cfg img = referencePath ed cv p (cfg\<lparr>method_name := Sobel\<rparr>) img"
  by (simp add: referencePath_def referenceBlur_def)

text \<open>
  Claim C10. In TypeScript mode with method grayscale the driver processes the frame on
  the Reference backend with \<^verbatim>\<open>EdgeDetector.sobel\<close> and the configured threshold, exactly
  as a Sobel frame: same calls, same outcome, so no grayscale conversion; its only calls
  are the Reference blur and the Reference Sobel, and any error of the frame is one that
  these two returned, none of the driver's own. Selecting grayscale while the mode is not
  OpenCV changes nothing of the application but shows an alert, whatever method was
  configured before; in OpenCV mode it sets the method.
\<close>

theorem grayscale_as_sobel_frame:
  "(mode cfg = TypeScript \<and> method_name cfg = Grayscale \<longrightarrow>
      processImage ed cv p cfg img =
        reference_outcome ed (blurAmount cfg) (TsSobel (threshold cfg))
          (\<lambda>im. ed_sobel ed im (threshold cfg)) img \<and>
      processImage ed cv p cfg img = processImage ed cv p (cfg\<lparr>method_name := Sobel\<rparr>) img \<and>
      (\<forall>c \<in> set (fst (processImage ed cv p cfg img)).
          c = TsGaussianBlur (blurAmount cfg) \<or> c = TsSobel (threshold cfg)) \<and>
      (\<forall>e. snd (processImage ed cv p cfg img) = Inl e \<longrightarrow>
          ed_gaussianBlur ed img (blurAmount cfg) = Inl e \<or>
          (\<exists>im. ed_sobel ed im (threshold cfg) = Inl e))) \<and>
   (mode (config app) \<noteq> OpenCV \<longrightarrow>
      selectAlgorithm Grayscale app =
        app\<lparr>alerts := alerts app @ [''Grayscale filter is only available in OpenCV mode.'']\<rparr> \<and>
      config (selectAlgorithm Grayscale app) = config app) \<and>
   (mode (config app) = OpenCV \<longrightarrow>
      selectAlgorithm Grayscale app = app\<lparr>config := (config app)\<lparr>method_name := Grayscale\<rparr>\<rparr>)"
proof -
  have drv: "processImage ed cv p cfg img =
        reference_outcome ed (blurAmount cfg) (TsSobel (threshold cfg))
          (\<lambda>im. ed_sobel ed im (threshold cfg)) img \<and>
      processImage ed cv p cfg img = processImage ed cv p (cfg\<lparr>method_name := Sobel\<rparr>) img \<and>
      (\<forall>c \<in> set (fst (processImage ed cv p cfg img)).
          c = TsGaussianBlur (blurAmount cfg) \<or> c = TsSobel (threshold cfg)) \<and>
      (\<forall>e. snd (processImage ed cv p cfg img) = Inl e \<longrightarrow>
          ed_gaussianBlur ed img (blurAmount cfg) = Inl e \<or>
          (\<exists>im. ed_sobel ed im (threshold cfg) = Inl e))"
    if m: "mode cfg = TypeScript" and g: "method_name cfg = Grayscale"
  proof -
    have path: "processImage ed cv p c img = referencePath ed cv p c img"
      if "mode c = TypeScript" for c
      using that by (simp add: processImage_def)
    have 1: "processImage ed cv p cfg img =
        reference_outcome ed (blurAmount cfg) (TsSobel (threshold cfg))
          (\<lambda>im. ed_sobel ed im (threshold cfg)) img"
      unfolding path[OF m] referencePath_outcome using g by simp
    have 2: "processImage ed cv p cfg img = processImage ed cv p (cfg\<lparr>method_name := Sobel\<rparr>) img"
      using path[OF m] path[of "cfg\<lparr>method_name := Sobel\<rparr>"] m grayscale_as_sobel[OF g, of ed cv p img]
      by simp
    have 3: "\<forall>c \<in> set (fst (processImage ed cv p cfg img)).
          c = TsGaussianBlur (blurAmount cfg) \<or> c = TsSobel (threshold cfg)"
      unfolding 1
      by (cases "ed_gaussianBlur ed img (blurAmount cfg)") (simp_all add: reference_outcome_def)
    have 4: "\<forall>e. snd (processImage ed cv p cfg img) = Inl e \<longrightarrow>
          ed_gaussianBlur ed img (blurAmount cfg) = Inl e \<or>
          (\<exists>im. ed_sobel ed im (threshold cfg) = Inl e)"
      unfolding 1
      by (cases "ed_gaussianBlur ed img (blurAmount cfg)")
         (auto simp: reference_outcome_def split: if_splits)
    from 1 2 3 4 show ?thesis by blast
  qed
  have sel: "selectAlgorithm Grayscale app =
        app\<lparr>alerts := alerts app @ [''Grayscale filter is only available in OpenCV mode.'']\<rparr> \<and>
      config (selectAlgorithm Grayscale app) = config app"
    if "mode (config app) \<noteq> OpenCV"
    using that by (simp add: selectAlgorithm_def)
  have set: "selectAlgorithm Grayscale app = app\<lparr>config := (config app)\<lparr>method_name := Grayscale\<rparr>\<rparr>"
    if "mode (config app) = OpenCV"
    using that by (simp add: selectAlgorithm_def)
  from drv sel set show ?thesis by blast
qed

theorem grayscale_as_sobel_frame_witness:
  "mode grayscale_config = TypeScript \<and> method_name grayscale_config = Grayscale \<and>
   processImage ed_sample cv_sample \<lparr>isReady = True\<rparr> grayscale_config step_edge
     = ([TsGaussianBlur 1, TsSobel 40], Inr step_edge) \<and>
   mode (config typescript_app) \<noteq> OpenCV \<and> method_name (config typescript_app) = Sobel \<and>
   config (selectAlgorithm Grayscale typescript_app) = config typescript_app \<and>
   mode (config sample_app) = OpenCV \<and>
   method_name (config (selectAlgorithm Grayscale sample_app)) = Grayscale"
proof -
  have h: "mode grayscale_config = TypeScript \<and> method_name grayscale_config = Grayscale"
    by (simp add: grayscale_config_def)
  have t: "mode (config typescript_app) \<noteq> OpenCV" "method_name (config typescript_app) = Sobel"
    by (simp_all add: typescript_app_def sample_app_def)
  have s: "mode (config sample_app) = OpenCV"
    by (simp add: sample_app_def sample_config_def)
  note a = grayscale_as_sobel_frame[of grayscale_config ed_sample cv_sample "\<lparr>isReady = True\<rparr>"
      step_edge typescript_app]
  note b = grayscale_as_sobel_frame[of grayscale_config ed_sample cv_sample "\<lparr>isReady = True\<rparr>"
      step_edge sample_app]
  from a h have "processImage ed_sample cv_sample \<lparr>isReady = True\<rparr> grayscale_config step_edge
     = reference_outcome ed_sample (blurAmount grayscale_config) (TsSobel (threshold grayscale_config))
          (\<lambda>im. ed_sobel ed_sample im (threshold grayscale_config)) step_edge"
    by blast
  then have 1: "processImage ed_sample cv_sample \<lparr>isReady = True\<rparr> grayscale_config step_edge
     = ([TsGaussianBlur 1, TsSobel 40], Inr step_edge)"
    by (simp add: reference_outcome_def grayscale_config_def ed_sample_def)
  from a t(1) have 2: "config (selectAlgorithm Grayscale typescript_app) = config typescript_app"
    by blast
  from b s have "selectAlgorithm Grayscale sample_app
      = sample_app\<lparr>config := (config sample_app)\<lparr>method_name := Grayscale\<rparr>\<rparr>"
    by blast
  then have 3: "method_name (config (selectAlgorithm Grayscale sample_app)) = Grayscale"
    by simp
  from h 1 t 2 s 3 show ?thesis by blast
qed

end
